theory Spec2Isabelle
  imports Main "HOL-Library.Sublist" "HOL-Library.Multiset"
begin

section \<open>Data model of the flat-file store (server.js)\<close>

text \<open>
  The server keeps one JSON document in \<^verbatim>\<open>db.json\<close>. Names, passwords, identifiers,
  tokens and digests are modelled as \<^typ>\<open>string\<close>; only their equality is ever inspected.
  Texts that the code searches (prompts, message bodies) are sequences of UTF-16 code
  units, as JavaScript strings are. Instants are milliseconds since the epoch: the
  ISO strings written by \<^verbatim>\<open>toISOString\<close> are read back by \<^verbatim>\<open>new Date(...)\<close> as the same
  instant, so a stored date is modelled by that instant.
\<close>

type_synonym jstr = "nat list"
type_synonym instant = int

record user =
  u_id :: string
  username :: string
  password :: "string option"
  apiKey :: string
  telegramId :: "int option"
  firstName :: "string option"
  lastName :: "string option"
  u_createdAt :: instant

record session =
  token :: string
  s_userId :: string
  s_createdAt :: instant
  expiresAt :: instant

record message =
  m_type :: string
  m_text :: jstr
  m_content :: "jstr option"
  m_image :: "string option"
  m_video :: "string option"
  m_timestamp :: instant

record chat =
  c_id :: string
  c_userId :: string
  title :: jstr
  messages :: "message list"
  model :: string
  c_createdAt :: instant
  updatedAt :: instant

record api_keys =
  huggingface :: string
  replicate :: string

text \<open>
  The document. The key \<^verbatim>\<open>sessions\<close> is optional: the handlers test \<^verbatim>\<open>!db.sessions\<close>
  and create the array on first use.
\<close>

record db =
  users :: "user list"
  chats :: "chat list"
  sessions :: "session list option"
  apiKeys :: api_keys

text \<open>The top-level keys that \<^verbatim>\<open>JSON.stringify\<close> writes for a document, in order.\<close>

definition top_level_keys :: "db \<Rightarrow> string list" where
  "top_level_keys d =
     [''users'', ''chats'', ''apiKeys''] @
     (case sessions d of None \<Rightarrow> [] | Some _ \<Rightarrow> [''sessions''])"

text \<open>
  What is at \<^verbatim>\<open>DB_PATH\<close>: nothing, text that \<^verbatim>\<open>JSON.parse\<close> rejects, or a document.
  The file system state also counts the calls of \<^verbatim>\<open>fs.writeFile\<close>.

  A document is a JSON object with the arrays \<^verbatim>\<open>users\<close> and \<^verbatim>\<open>chats\<close>, which is what the
  server writes. Text that parses to another value (the object \<^verbatim>\<open>{}\<close>, say) is none of
  the three: \<^verbatim>\<open>readDB\<close> returns it as it is, and a route that reads \<^verbatim>\<open>db.users\<close> or
  \<^verbatim>\<open>db.chats\<close> of it raises and answers 500. Such a file is outside this model, and
  every statement below is about the three contents named here.
\<close>

datatype db_file = Missing | Unparsable | Stored db

record fs_state =
  fcontent :: db_file
  writes :: nat

definition writeFile :: "db \<Rightarrow> fs_state \<Rightarrow> fs_state" where
  "writeFile d st = \<lparr>fcontent = Stored d, writes = Suc (writes st)\<rparr>"

definition defaultDB :: db where
  "defaultDB = \<lparr>users = [], chats = [], sessions = None,
                 apiKeys = \<lparr>huggingface = [], replicate = []\<rparr>\<rparr>"

definition ensureDBExists :: "fs_state \<Rightarrow> fs_state" where
  "ensureDBExists st =
     (case fcontent st of Missing \<Rightarrow> writeFile defaultDB st | _ \<Rightarrow> st)"

definition readDB :: "fs_state \<Rightarrow> db \<times> fs_state" where
  "readDB st =
     (let st1 = ensureDBExists st in
      case fcontent st1 of
        Stored d \<Rightarrow> (d, st1)
      | _ \<Rightarrow> (defaultDB, writeFile defaultDB st1))"

definition writeDB :: "db \<Rightarrow> fs_state \<Rightarrow> fs_state" where
  "writeDB d st = writeFile d st"

text \<open>The middleware in front of every route.\<close>

definition middleware :: "(fs_state \<Rightarrow> 'a) \<Rightarrow> fs_state \<Rightarrow> 'a" where
  "middleware handler st = handler (ensureDBExists st)"

section \<open>Platform functions\<close>

text \<open>
  Library functions the code calls and the repository does not define: the digests of
  \<^verbatim>\<open>crypto\<close>, \<^verbatim>\<open>URLSearchParams\<close>, \<^verbatim>\<open>String.prototype.localeCompare\<close>,
  \<^verbatim>\<open>JSON.parse\<close> on the Telegram user object, the text of a number in a string
  concatenation, \<^verbatim>\<open>String.prototype.toLowerCase\<close> and the case folding of a code unit
  under the \<^verbatim>\<open>i\<close> flag of a pattern. They are parameters of the model.

  What \<^verbatim>\<open>JSON.parse\<close> returns for the \<^verbatim>\<open>user\<close> parameter: its \<^verbatim>\<open>id\<close>, \<^verbatim>\<open>None\<close> when
  the value has no such property (reading it gives \<^verbatim>\<open>undefined\<close>), and the three names.
  The id is the number as parsed; an id of another JSON type is not modelled. No result
  (\<^verbatim>\<open>None\<close> of \<^verbatim>\<open>parseTelegramUser\<close>) stands for a text that \<^verbatim>\<open>JSON.parse\<close> rejects and
  for the value \<^verbatim>\<open>null\<close>, whose properties cannot be read: both raise.
\<close>

record tg_user =
  tg_id :: "int option"
  tg_username :: "string option"
  tg_first_name :: "string option"
  tg_last_name :: "string option"

record platform =
  sha256_hex :: "string \<Rightarrow> string"
  md5_hex :: "string \<Rightarrow> string"
  hmac_sha256 :: "string \<Rightarrow> string \<Rightarrow> string"
  hex_of :: "string \<Rightarrow> string"
  searchParams :: "string \<Rightarrow> (string \<times> string) list"
  localeCompare :: "string \<Rightarrow> string \<Rightarrow> int"
  parseTelegramUser :: "string \<Rightarrow> tg_user option"
  numberToString :: "int \<Rightarrow> string"
  toLowerCase :: "jstr \<Rightarrow> jstr"
  canonicalize :: "nat \<Rightarrow> nat"

text \<open>
  Decimal rendering of a clock reading, as string concatenation and \<^verbatim>\<open>toString\<close>
  produce it (the readings of \<^verbatim>\<open>Date.now()\<close> are integers far below \<^verbatim>\<open>1e21\<close>, where
  the rendering of a number stops being its decimal digits).
\<close>

definition digit :: "nat \<Rightarrow> char" where
  "digit n = ''0123456789'' ! n"

fun dec_nat :: "nat \<Rightarrow> string" where
  "dec_nat n =
     (if n < 10 then [digit n]
      else dec_nat (n div 10) @ [digit (n mod 10)])"

definition dec :: "int \<Rightarrow> string" where
  "dec i = (if i < 0 then CHR ''-'' # dec_nat (nat (- i)) else dec_nat (nat i))"

text \<open>An answer of a route: the HTTP status with the body, or with the error text.\<close>

datatype 'a reply = Success nat 'a | Failure nat string

fun status :: "'a reply \<Rightarrow> nat" where
  "status (Success n _) = n"
| "status (Failure n _) = n"

section \<open>Authentication (server.js)\<close>

definition hashPassword :: "platform \<Rightarrow> string \<Rightarrow> string" where
  "hashPassword P pw = sha256_hex P pw"

text \<open>\<^verbatim>\<open>rnd32\<close> is the hex rendering of \<^verbatim>\<open>crypto.randomBytes(32)\<close>.\<close>

definition generateApiKey :: "string \<Rightarrow> string" where
  "generateApiKey rnd32 = ''sk-'' @ rnd32"

text \<open>\<^verbatim>\<open>now\<close> is the reading of \<^verbatim>\<open>Date.now()\<close>, \<^verbatim>\<open>rnd8\<close> the hex of \<^verbatim>\<open>randomBytes(8)\<close>.\<close>

definition generateSessionToken :: "platform \<Rightarrow> instant \<Rightarrow> string \<Rightarrow> string \<Rightarrow> string" where
  "generateSessionToken P now rnd8 userId =
     ''sess_'' @ dec now @ ''_'' @ rnd8 @ ''_'' @ take 8 (md5_hex P userId)"

text \<open>The object rest pattern \<^verbatim>\<open>{ password, ...userResponse }\<close>.\<close>

definition userResponse :: "user \<Rightarrow> user" where
  "userResponse u = u\<lparr>password := None\<rparr>"

definition sevenDays :: int where
  "sevenDays = 7 * 24 * 60 * 60 * 1000"

text \<open>
  The session object both login routes store: \<^verbatim>\<open>created\<close> is the reading of
  \<^verbatim>\<open>new Date()\<close> and \<^verbatim>\<open>issued\<close> that of \<^verbatim>\<open>Date.now()\<close> on the next line.
\<close>

definition newSession :: "string \<Rightarrow> string \<Rightarrow> instant \<Rightarrow> instant \<Rightarrow> session" where
  "newSession sessionToken userId created issued =
     \<lparr>token = sessionToken, s_userId = userId, s_createdAt = created,
      expiresAt = issued + sevenDays\<rparr>"

text \<open>The sessions of a document, none when the key is absent.\<close>

definition sessions_of :: "db \<Rightarrow> session list" where
  "sessions_of d = (case sessions d of None \<Rightarrow> [] | Some ss \<Rightarrow> ss)"

text \<open>The filter \<^verbatim>\<open>db.sessions.filter(s => s.userId === user.id)\<close>.\<close>

definition sessionsOfUser :: "string \<Rightarrow> session list \<Rightarrow> session list" where
  "sessionsOfUser uid ss = filter (\<lambda>s. s_userId s = uid) ss"

text \<open>
  The block both login routes run before storing a session: when the user already has
  three or more sessions, they are sorted by \<^verbatim>\<open>createdAt\<close>, newest first (the sort of
  \<^verbatim>\<open>Array.prototype.sort\<close> is stable), and only the sessions of the user whose token is
  among the first two are kept.
\<close>

definition cleanOldSessions :: "string \<Rightarrow> session list \<Rightarrow> session list" where
  "cleanOldSessions uid ss =
     (let userSessions = sessionsOfUser uid ss in
      if length userSessions \<ge> 3 then
        let sorted = sort_key (\<lambda>s. - s_createdAt s) userSessions;
            sessionsToKeep = map token (take 2 sorted)
        in filter (\<lambda>s. s_userId s \<noteq> uid \<or> token s \<in> set sessionsToKeep) ss
      else ss)"

text \<open>
  \<^verbatim>\<open>POST /api/auth/register\<close>. \<^verbatim>\<open>tId\<close> and \<^verbatim>\<open>tCreated\<close> are the two clock readings
  of the handler.
\<close>

definition register ::
  "platform \<Rightarrow> instant \<Rightarrow> instant \<Rightarrow> string \<Rightarrow> string \<Rightarrow> string \<Rightarrow> fs_state
     \<Rightarrow> user reply \<times> fs_state" where
  "register P tId tCreated rnd32 uname pw st =
     (if uname = [] \<or> pw = [] then (Failure 400 ''Username and password required'', st)
      else
        let (d, st1) = readDB st in
        case find (\<lambda>u. username u = uname) (users d) of
          Some _ \<Rightarrow> (Failure 400 ''User already exists'', st1)
        | None \<Rightarrow>
            let newUser = \<lparr>u_id = dec tId, username = uname,
                           password = Some (hashPassword P pw),
                           apiKey = generateApiKey rnd32, telegramId = None,
                           firstName = None, lastName = None, u_createdAt = tCreated\<rparr>
            in (Success 201 (userResponse newUser),
                writeDB (d\<lparr>users := users d @ [newUser]\<rparr>) st1))"

text \<open>
  \<^verbatim>\<open>POST /api/auth/login\<close>. The handler reads the clock three times: in
  \<^verbatim>\<open>generateSessionToken\<close> (\<^verbatim>\<open>tTok\<close>), for \<^verbatim>\<open>createdAt\<close> (\<^verbatim>\<open>tCreated\<close>) and for
  \<^verbatim>\<open>expiresAt\<close> (\<^verbatim>\<open>tIssued\<close>).
\<close>

definition login ::
  "platform \<Rightarrow> instant \<Rightarrow> instant \<Rightarrow> instant \<Rightarrow> string \<Rightarrow> string \<Rightarrow> string \<Rightarrow> fs_state
     \<Rightarrow> (user \<times> string) reply \<times> fs_state" where
  "login P tTok tCreated tIssued rnd8 uname pw st =
     (if uname = [] \<or> pw = [] then (Failure 400 ''Username and password required'', st)
      else
        let (d, st1) = readDB st in
        case find (\<lambda>u. username u = uname \<and> password u = Some (hashPassword P pw)) (users d) of
          None \<Rightarrow> (Failure 401 ''Invalid credentials'', st1)
        | Some u \<Rightarrow>
            let sessionToken = generateSessionToken P tTok rnd8 (u_id u);
                ss1 = cleanOldSessions (u_id u) (sessions_of d);
                ss2 = ss1 @ [newSession sessionToken (u_id u) tCreated tIssued]
            in (Success 200 (userResponse u, sessionToken),
                writeDB (d\<lparr>sessions := Some ss2\<rparr>) st1))"

text \<open>\<^verbatim>\<open>URLSearchParams.get\<close> and \<^verbatim>\<open>URLSearchParams.delete\<close> on the list of entries.\<close>

definition params_get :: "string \<Rightarrow> (string \<times> string) list \<Rightarrow> string option" where
  "params_get k ps = map_option snd (find (\<lambda>p. fst p = k) ps)"

definition params_delete :: "string \<Rightarrow> (string \<times> string) list \<Rightarrow> (string \<times> string) list" where
  "params_delete k ps = filter (\<lambda>p. fst p \<noteq> k) ps"

text \<open>
  The stable sort of the entries with the comparator
  \<^verbatim>\<open>([a], [b]) => a.localeCompare(b)\<close>: an entry goes before the entries it does not
  compare greater than.
\<close>

fun insert_entry ::
  "(string \<Rightarrow> string \<Rightarrow> int) \<Rightarrow> string \<times> string \<Rightarrow> (string \<times> string) list
     \<Rightarrow> (string \<times> string) list" where
  "insert_entry cmp e [] = [e]"
| "insert_entry cmp e (x # xs) =
     (if cmp (fst e) (fst x) \<le> 0 then e # x # xs else x # insert_entry cmp e xs)"

definition sort_entries ::
  "(string \<Rightarrow> string \<Rightarrow> int) \<Rightarrow> (string \<times> string) list \<Rightarrow> (string \<times> string) list" where
  "sort_entries cmp es = foldr (insert_entry cmp) es []"

text \<open>\<^verbatim>\<open>Array.prototype.join\<close> with a newline.\<close>

fun join_lines :: "string list \<Rightarrow> string" where
  "join_lines [] = []"
| "join_lines [l] = l"
| "join_lines (l # ls) = l @ [CHR 0x0A] @ join_lines ls"

definition dataCheckString :: "platform \<Rightarrow> string \<Rightarrow> string" where
  "dataCheckString P initData =
     join_lines (map (\<lambda>(k, v). k @ ''='' @ v)
       (sort_entries (localeCompare P) (params_delete ''hash'' (searchParams P initData))))"

definition calculatedHash :: "platform \<Rightarrow> string \<Rightarrow> string \<Rightarrow> string" where
  "calculatedHash P initData botToken =
     hex_of P (hmac_sha256 P (hmac_sha256 P ''WebAppData'' botToken) (dataCheckString P initData))"

definition verifyTelegramWebAppData :: "platform \<Rightarrow> string \<Rightarrow> string \<Rightarrow> bool" where
  "verifyTelegramWebAppData P initData botToken =
     (case params_get ''hash'' (searchParams P initData) of
        None \<Rightarrow> False
      | Some h \<Rightarrow> if h = [] then False else calculatedHash P initData botToken = h)"

text \<open>The text of \<^verbatim>\<open>telegramId\<close> in \<^verbatim>\<open>'tg_' + telegramId\<close>.\<close>

definition idText :: "platform \<Rightarrow> int option \<Rightarrow> string" where
  "idText P i = (case i of None \<Rightarrow> ''undefined'' | Some n \<Rightarrow> numberToString P n)"

text \<open>
  The user created on the first Telegram login; it has no password. \<^verbatim>\<open>rnd32\<close> feeds
  \<^verbatim>\<open>generateApiKey\<close> and \<^verbatim>\<open>created\<close> is the reading of \<^verbatim>\<open>new Date()\<close>.
\<close>

definition newTelegramUser :: "platform \<Rightarrow> tg_user \<Rightarrow> string \<Rightarrow> instant \<Rightarrow> user" where
  "newTelegramUser P tu rnd32 created =
     \<lparr>u_id = ''tg_'' @ idText P (tg_id tu),
      username = (case tg_username tu of
                    None \<Rightarrow> ''user_'' @ idText P (tg_id tu)
                  | Some n \<Rightarrow> if n = [] then ''user_'' @ idText P (tg_id tu) else n),
      password = None, apiKey = generateApiKey rnd32,
      telegramId = tg_id tu,
      firstName = tg_first_name tu, lastName = tg_last_name tu,
      u_createdAt = created\<rparr>"

text \<open>
  \<^verbatim>\<open>POST /api/auth/telegram\<close>. \<^verbatim>\<open>botToken\<close> is \<^verbatim>\<open>process.env.TELEGRAM_BOT_TOKEN\<close>,
  \<^verbatim>\<open>None\<close> when the variable is not set; an empty value is falsy as well. A user
  parameter that \<^verbatim>\<open>JSON.parse\<close> rejects raises, which the handler turns into a 500.
  The search \<^verbatim>\<open>u.telegramId === telegramId\<close> compares with the stored key, absent in a
  user registered with a password: a parsed value without an id finds the first such
  user.
\<close>

definition telegramAuth ::
  "platform \<Rightarrow> string option \<Rightarrow> instant \<Rightarrow> instant \<Rightarrow> instant \<Rightarrow> instant \<Rightarrow> string \<Rightarrow> string
     \<Rightarrow> string \<Rightarrow> fs_state \<Rightarrow> (user \<times> string) reply \<times> fs_state" where
  "telegramAuth P botToken tUser tTok tCreated tIssued rnd32 rnd8 initData st =
     (if initData = [] then (Failure 400 ''initData required'', st)
      else if (case botToken of None \<Rightarrow> False
               | Some t \<Rightarrow> t \<noteq> [] \<and> \<not> verifyTelegramWebAppData P initData t)
      then (Failure 401 ''Invalid Telegram data'', st)
      else
        case params_get ''user'' (searchParams P initData) of
          None \<Rightarrow> (Failure 400 ''User data not found'', st)
        | Some userParam \<Rightarrow>
            if userParam = [] then (Failure 400 ''User data not found'', st)
            else
              (case parseTelegramUser P userParam of
                None \<Rightarrow> (Failure 500 ''Internal server error'', st)
              | Some tu \<Rightarrow>
                  let (d, st1) = readDB st;
                      found = find (\<lambda>u. telegramId u = tg_id tu) (users d);
                      u = (case found of
                             Some u \<Rightarrow> u
                           | None \<Rightarrow> newTelegramUser P tu rnd32 tUser);
                      us = (case found of Some _ \<Rightarrow> users d | None \<Rightarrow> users d @ [u]);
                      sessionToken = generateSessionToken P tTok rnd8 (u_id u);
                      ss1 = cleanOldSessions (u_id u) (sessions_of d);
                      ss2 = ss1 @ [newSession sessionToken (u_id u) tCreated tIssued]
                  in (Success 200 (userResponse u, sessionToken),
                      writeDB (d\<lparr>users := us, sessions := Some ss2\<rparr>) st1)))"

text \<open>
  \<^verbatim>\<open>POST /api/auth/verify-session\<close>, with the \<^verbatim>\<open>Authorization\<close> header of the request
  and the reading \<^verbatim>\<open>now\<close> of \<^verbatim>\<open>new Date()\<close>.
\<close>

definition verifySession ::
  "instant \<Rightarrow> string option \<Rightarrow> fs_state \<Rightarrow> user reply \<times> fs_state" where
  "verifySession now authHeader st =
     (case authHeader of
        None \<Rightarrow> (Failure 401 ''No token provided'', st)
      | Some h \<Rightarrow>
          if h = [] \<or> \<not> prefix ''Bearer '' h then (Failure 401 ''No token provided'', st)
          else
            let tok = drop 7 h; (d, st1) = readDB st in
            (case sessions d of
              None \<Rightarrow> (Failure 401 ''Session not found'', st1)
            | Some ss \<Rightarrow>
                (case find (\<lambda>s. token s = tok) ss of
                   None \<Rightarrow> (Failure 401 ''Invalid session'', st1)
                 | Some s \<Rightarrow>
                     if expiresAt s < now then
                       (Failure 401 ''Session expired'',
                        writeDB (d\<lparr>sessions := Some (filter (\<lambda>s. token s \<noteq> tok) ss)\<rparr>) st1)
                     else
                       (case find (\<lambda>u. u_id u = s_userId s) (users d) of
                          None \<Rightarrow> (Failure 401 ''User not found'', st1)
                        | Some u \<Rightarrow> (Success 200 (userResponse u), st1)))))"

section \<open>Chat routes (server.js)\<close>

text \<open>\<^verbatim>\<open>Array.prototype.findIndex\<close>; \<^verbatim>\<open>None\<close> stands for \<^verbatim>\<open>-1\<close>.\<close>

fun findIndex :: "('a \<Rightarrow> bool) \<Rightarrow> 'a list \<Rightarrow> nat option" where
  "findIndex p [] = None"
| "findIndex p (x # xs) = (if p x then Some 0 else map_option Suc (findIndex p xs))"


text \<open>
  \<^verbatim>\<open>POST /api/chats\<close>. The handler reads the clock three times: for the id, for
  \<^verbatim>\<open>createdAt\<close> and for \<^verbatim>\<open>updatedAt\<close>. An absent or empty \<^verbatim>\<open>model\<close> becomes
  \<^verbatim>\<open>'gpt-5'\<close>.
\<close>

definition createChat ::
  "instant \<Rightarrow> instant \<Rightarrow> instant \<Rightarrow> string \<Rightarrow> jstr \<Rightarrow> string option \<Rightarrow> fs_state
     \<Rightarrow> chat reply \<times> fs_state" where
  "createChat tId tCreated tUpdated userId ttl mdl st =
     (if userId = [] \<or> ttl = [] then (Failure 400 ''UserId and title required'', st)
      else
        let (d, st1) = readDB st;
            newChat = \<lparr>c_id = ''chat_'' @ dec tId, c_userId = userId, title = ttl,
                       messages = [],
                       model = (case mdl of None \<Rightarrow> ''gpt-5''
                                | Some m \<Rightarrow> if m = [] then ''gpt-5'' else m),
                       c_createdAt = tCreated, updatedAt = tUpdated\<rparr>
        in (Success 201 newChat, writeDB (d\<lparr>chats := chats d @ [newChat]\<rparr>) st1))"

text \<open>
  The body of \<^verbatim>\<open>PUT /api/chats/:chatId\<close>: any subset of the fields of a chat. The
  spread \<^verbatim>\<open>{...old, ...updates, updatedAt: now}\<close> takes a field from the body when it is
  there and from the stored chat otherwise, and \<^verbatim>\<open>updatedAt\<close> always from the clock.
\<close>

record chat_updates =
  up_id :: "string option"
  up_userId :: "string option"
  up_title :: "jstr option"
  up_messages :: "message list option"
  up_model :: "string option"
  up_createdAt :: "instant option"
  up_updatedAt :: "instant option"

definition field :: "'a \<Rightarrow> 'a option \<Rightarrow> 'a" where
  "field stored upd = (case upd of None \<Rightarrow> stored | Some v \<Rightarrow> v)"

definition mergeChat :: "chat \<Rightarrow> chat_updates \<Rightarrow> instant \<Rightarrow> chat" where
  "mergeChat c up now =
     \<lparr>c_id = field (c_id c) (up_id up),
      c_userId = field (c_userId c) (up_userId up),
      title = field (title c) (up_title up),
      messages = field (messages c) (up_messages up),
      model = field (model c) (up_model up),
      c_createdAt = field (c_createdAt c) (up_createdAt up),
      updatedAt = now\<rparr>"

definition updateChat ::
  "instant \<Rightarrow> string \<Rightarrow> chat_updates \<Rightarrow> fs_state \<Rightarrow> chat reply \<times> fs_state" where
  "updateChat now chatId updates st =
     (let (d, st1) = readDB st in
      case findIndex (\<lambda>c. c_id c = chatId) (chats d) of
        None \<Rightarrow> (Failure 404 ''Chat not found'', st1)
      | Some chatIndex \<Rightarrow>
          let merged = mergeChat (chats d ! chatIndex) updates now in
          (Success 200 merged, writeDB (d\<lparr>chats := (chats d)[chatIndex := merged]\<rparr>) st1))"

text \<open>\<^verbatim>\<open>DELETE /api/chats/:chatId\<close>; \<^verbatim>\<open>splice(chatIndex, 1)\<close> removes one element.\<close>

definition deleteChat :: "string \<Rightarrow> fs_state \<Rightarrow> unit reply \<times> fs_state" where
  "deleteChat chatId st =
     (let (d, st1) = readDB st in
      case findIndex (\<lambda>c. c_id c = chatId) (chats d) of
        None \<Rightarrow> (Failure 404 ''Chat not found'', st1)
      | Some chatIndex \<Rightarrow>
          (Success 200 (),
           writeDB (d\<lparr>chats := take chatIndex (chats d) @ drop (Suc chatIndex) (chats d)\<rparr>) st1))"

section \<open>JavaScript strings and regular expressions\<close>

text \<open>The code units of an ASCII literal of the sources.\<close>

definition js :: "string \<Rightarrow> jstr" where
  "js s = map of_char s"

text \<open>\<^verbatim>\<open>String.prototype.includes\<close>: the word occurs at some position.\<close>

fun js_includes :: "jstr \<Rightarrow> jstr \<Rightarrow> bool" where
  "js_includes [] w = (w = [])"
| "js_includes (c # cs) w = (prefix w (c # cs) \<or> js_includes cs w)"

text \<open>
  The class \<^verbatim>\<open>\s\<close> and, for \<^verbatim>\<open>\b\<close>, the class \<^verbatim>\<open>\w\<close> of a pattern without the
  \<^verbatim>\<open>u\<close> flag: ASCII letters, digits and the underscore only.
\<close>

definition is_space :: "nat \<Rightarrow> bool" where
  "is_space c =
     (c \<in> {0x09, 0x0A, 0x0B, 0x0C, 0x0D, 0x20, 0xA0, 0x1680, 0x2028, 0x2029, 0x202F,
            0x205F, 0x3000, 0xFEFF}
      \<or> (0x2000 \<le> c \<and> c \<le> 0x200A))"

definition is_word :: "nat \<Rightarrow> bool" where
  "is_word c =
     ((0x30 \<le> c \<and> c \<le> 0x39) \<or> (0x41 \<le> c \<and> c \<le> 0x5A) \<or> c = 0x5F
      \<or> (0x61 \<le> c \<and> c \<le> 0x7A))"

text \<open>
  The patterns of the application are built from four forms: an alternation of
  literal words, concatenation, \<^verbatim>\<open>\s+\<close> and \<^verbatim>\<open>\b\<close>.
\<close>

datatype regex = OneOf "jstr list" | Seq regex regex | Spaces | WordB

text \<open>
  A code unit of a pattern matches a code unit of the subject when they are equal, or,
  under the \<^verbatim>\<open>i\<close> flag, when their case foldings are.
\<close>

definition same_unit :: "platform \<Rightarrow> bool \<Rightarrow> nat \<Rightarrow> nat \<Rightarrow> bool" where
  "same_unit P ignoreCase c d =
     (if ignoreCase then canonicalize P c = canonicalize P d else c = d)"

definition lit_at :: "platform \<Rightarrow> bool \<Rightarrow> jstr \<Rightarrow> nat \<Rightarrow> jstr \<Rightarrow> bool" where
  "lit_at P ignoreCase s i w =
     list_all2 (same_unit P ignoreCase) w (take (length w) (drop i s))"

definition word_boundary :: "jstr \<Rightarrow> nat \<Rightarrow> bool" where
  "word_boundary s i =
     ((0 < i \<and> i \<le> length s \<and> is_word (s ! (i - 1))) \<noteq> (i < length s \<and> is_word (s ! i)))"

text \<open>
  All positions at which a match of the pattern that starts at position \<^verbatim>\<open>i\<close> of the
  subject can end. A backtracking matcher finds a match exactly when there is one.
\<close>

fun match_ends :: "platform \<Rightarrow> bool \<Rightarrow> jstr \<Rightarrow> regex \<Rightarrow> nat \<Rightarrow> nat list" where
  "match_ends P ic s (OneOf ws) i = map (\<lambda>w. i + length w) (filter (lit_at P ic s i) ws)"
| "match_ends P ic s (Seq a b) i =
     concat (map (match_ends P ic s b) (match_ends P ic s a i))"
| "match_ends P ic s Spaces i =
     map (\<lambda>k. i + k) [1 ..< Suc (length (takeWhile is_space (drop i s)))]"
| "match_ends P ic s WordB i = (if word_boundary s i then [i] else [])"

text \<open>\<^verbatim>\<open>RegExp.prototype.test\<close> of a pattern without the \<^verbatim>\<open>g\<close> flag.\<close>

definition test :: "platform \<Rightarrow> bool \<Rightarrow> regex \<Rightarrow> jstr \<Rightarrow> bool" where
  "test P ignoreCase r s =
     list_ex (\<lambda>i. match_ends P ignoreCase s r i \<noteq> []) [0 ..< Suc (length s)]"

subsection \<open>The Russian words of the sources, as code units\<close>

definition ru_sgenerir :: jstr where
  "ru_sgenerir = [0x441, 0x433, 0x435, 0x43D, 0x435, 0x440, 0x438, 0x440]"

definition ru_narisuj :: jstr where
  "ru_narisuj = [0x43D, 0x430, 0x440, 0x438, 0x441, 0x443, 0x439]"

definition ru_sozdaj :: jstr where
  "ru_sozdaj = [0x441, 0x43E, 0x437, 0x434, 0x430, 0x439]"

definition ru_ostav :: jstr where
  "ru_ostav = [0x43E, 0x441, 0x442, 0x430, 0x432, 0x44C]"

definition ru_uberi :: jstr where
  "ru_uberi = [0x443, 0x431, 0x435, 0x440, 0x438]"

definition ru_dobav :: jstr where
  "ru_dobav = [0x434, 0x43E, 0x431, 0x430, 0x432, 0x44C]"

definition ru_izmeni :: jstr where
  "ru_izmeni = [0x438, 0x437, 0x43C, 0x435, 0x43D, 0x438]"

definition ru_sdelaj :: jstr where
  "ru_sdelaj = [0x441, 0x434, 0x435, 0x43B, 0x430, 0x439]"

definition ru_tolko :: jstr where
  "ru_tolko = [0x442, 0x43E, 0x43B, 0x44C, 0x43A, 0x43E]"

definition ru_bez :: jstr where
  "ru_bez = [0x431, 0x435, 0x437]"

definition ru_sgeneriruj :: jstr where
  "ru_sgeneriruj = [0x441, 0x433, 0x435, 0x43D, 0x435, 0x440, 0x438, 0x440, 0x443, 0x439]"

definition ru_sgenerirujte :: jstr where
  "ru_sgenerirujte = [0x441, 0x433, 0x435, 0x43D, 0x435, 0x440, 0x438, 0x440, 0x443, 0x439, 0x442, 0x435]"

definition ru_narisujte :: jstr where
  "ru_narisujte = [0x43D, 0x430, 0x440, 0x438, 0x441, 0x443, 0x439, 0x442, 0x435]"

definition ru_sozdajte :: jstr where
  "ru_sozdajte = [0x441, 0x43E, 0x437, 0x434, 0x430, 0x439, 0x442, 0x435]"

definition ru_sdelajte :: jstr where
  "ru_sdelajte = [0x441, 0x434, 0x435, 0x43B, 0x430, 0x439, 0x442, 0x435]"

definition ru_kartinku :: jstr where
  "ru_kartinku = [0x43A, 0x430, 0x440, 0x442, 0x438, 0x43D, 0x43A, 0x443]"

definition ru_izobrazhenie :: jstr where
  "ru_izobrazhenie = [0x438, 0x437, 0x43E, 0x431, 0x440, 0x430, 0x436, 0x435, 0x43D, 0x438, 0x435]"

definition ru_risunok :: jstr where
  "ru_risunok = [0x440, 0x438, 0x441, 0x443, 0x43D, 0x43E, 0x43A]"

definition ru_foto :: jstr where
  "ru_foto = [0x444, 0x43E, 0x442, 0x43E]"

definition ru_art :: jstr where
  "ru_art = [0x430, 0x440, 0x442]"

definition ru_video :: jstr where
  "ru_video = [0x432, 0x438, 0x434, 0x435, 0x43E]"

definition ru_kota :: jstr where
  "ru_kota = [0x43A, 0x43E, 0x442, 0x430]"

definition ru_shlyapu :: jstr where
  "ru_shlyapu = [0x448, 0x43B, 0x44F, 0x43F, 0x443]"

section \<open>Image generation (server.js)\<close>

text \<open>The pattern \<^verbatim>\<open>/ostav'|uberi|dobav'|izmeni|sdelaj|tol'ko|bez/\<close> (in Cyrillic).\<close>

definition modificationPattern :: regex where
  "modificationPattern =
     OneOf [ru_ostav, ru_uberi, ru_dobav, ru_izmeni, ru_sdelaj, ru_tolko, ru_bez]"

definition isGenerationRequest :: "message \<Rightarrow> bool" where
  "isGenerationRequest m =
     (case m_content m of
        None \<Rightarrow> False
      | Some c \<Rightarrow> c \<noteq> [] \<and> (js_includes c ru_sgenerir \<or> js_includes c ru_narisuj \<or> js_includes c ru_sozdaj))"

text \<open>
  Lines 576 to 602 of \<^verbatim>\<open>POST /api/generate/image\<close>: the prompt that goes to the
  provider. An absent \<^verbatim>\<open>userId\<close> or \<^verbatim>\<open>chatId\<close> is the empty string here, which is
  falsy as well.
\<close>

definition contextualPrompt ::
  "platform \<Rightarrow> jstr \<Rightarrow> string \<Rightarrow> string \<Rightarrow> fs_state \<Rightarrow> jstr \<times> fs_state" where
  "contextualPrompt P prompt userId chatId st =
     (if chatId \<noteq> [] \<and> userId \<noteq> [] then
        let (d, st1) = readDB st in
        (case find (\<lambda>c. c_id c = chatId \<and> c_userId c = userId) (chats d) of
           None \<Rightarrow> (prompt, st1)
         | Some c \<Rightarrow>
             if messages c \<noteq> [] then
               let recentMessages = drop (length (messages c) - 10) (messages c) in
               (case find isGenerationRequest (rev recentMessages) of
                  None \<Rightarrow> (prompt, st1)
                | Some lastImageGeneration \<Rightarrow>
                    if test P False modificationPattern (toLowerCase P prompt) then
                      (case m_content lastImageGeneration of
                         Some previous \<Rightarrow> (previous @ js '', '' @ prompt, st1)
                       | None \<Rightarrow> (js ''undefined, '' @ prompt, st1))
                    else (prompt, st1))
             else (prompt, st1))
      else (prompt, st))"

datatype provider_call = HuggingFaceCall jstr | PollinationsCall jstr

record image_body =
  ib_prompt :: jstr
  ib_originalPrompt :: jstr
  ib_model :: string
  ib_contextUsed :: bool

text \<open>
  \<^verbatim>\<open>encodeURIComponent\<close> raises a \<^verbatim>\<open>URIError\<close> on a text with a lone surrogate: a
  high surrogate not followed by a low one, or a low one not preceded by a high one.
\<close>

definition is_high_surrogate :: "nat \<Rightarrow> bool" where
  "is_high_surrogate c = (0xD800 \<le> c \<and> c \<le> 0xDBFF)"

definition is_low_surrogate :: "nat \<Rightarrow> bool" where
  "is_low_surrogate c = (0xDC00 \<le> c \<and> c \<le> 0xDFFF)"

fun encodable :: "jstr \<Rightarrow> bool" where
  "encodable [] = True"
| "encodable [c] = (\<not> is_high_surrogate c \<and> \<not> is_low_surrogate c)"
| "encodable (c # d # cs) =
     (if is_high_surrogate c then is_low_surrogate d \<and> encodable cs
      else \<not> is_low_surrogate c \<and> encodable (d # cs))"

text \<open>
  The route, with the outcome of the provider requests as parameters: whether the
  Stable Diffusion endpoint answered with success, and the status of Pollinations.
  The result lists the requests made, each with the prompt it carries. The prompt
  goes to Stable Diffusion in a JSON body and to Pollinations in the URL, which is
  where a prompt that cannot be encoded raises; the handler answers that with a 500.
\<close>

definition generateImage ::
  "platform \<Rightarrow> bool \<Rightarrow> nat \<Rightarrow> jstr \<Rightarrow> string \<Rightarrow> string \<Rightarrow> string option \<Rightarrow> fs_state
     \<Rightarrow> (image_body reply \<times> provider_call list) \<times> fs_state" where
  "generateImage P hfOk pollStatus prompt userId chatId providerOpt st =
     (if prompt = [] then ((Failure 400 ''Prompt required'', []), st)
      else
        let provider = (case providerOpt of None \<Rightarrow> ''stable-diffusion'' | Some p \<Rightarrow> p);
            (cp, st1) = contextualPrompt P prompt userId chatId st;
            body = (\<lambda>m. \<lparr>ib_prompt = cp, ib_originalPrompt = prompt, ib_model = m,
                          ib_contextUsed = (cp \<noteq> prompt)\<rparr>)
        in
          if provider = ''huggingface'' \<or> provider = ''stable-diffusion'' then
            if \<not> hfOk then
              if \<not> encodable cp then
                ((Failure 500 ''Internal server error'', [HuggingFaceCall cp]), st1)
              else
                ((Success 200 (body ''Pollinations AI (Flux) - Fallback''),
                  [HuggingFaceCall cp, PollinationsCall cp]), st1)
            else ((Success 200 (body ''Stable Diffusion 2.1''), [HuggingFaceCall cp]), st1)
          else if \<not> encodable cp then ((Failure 500 ''Internal server error'', []), st1)
          else if \<not> (200 \<le> pollStatus \<and> pollStatus \<le> 299) then
            ((Failure pollStatus ''Image generation failed'', [PollinationsCall cp]), st1)
          else ((Success 200 (body ''Pollinations AI (Flux)''), [PollinationsCall cp]), st1))"

section \<open>Request classification of the client (public/app.js)\<close>

datatype request_type = VideoRequest | ImageRequest | TextRequest

definition videoKeywords :: "jstr list" where
  "videoKeywords =
     [ru_sgeneriruj @ js '' '' @ ru_video, ru_sozdaj @ js '' '' @ ru_video,
      ru_sdelaj @ js '' '' @ ru_video,
      js ''generate video'', js ''create video'', js ''make video'']"

definition imageNouns :: "jstr list" where
  "imageNouns =
     [ru_kartinku, ru_izobrazhenie, ru_risunok, ru_foto, ru_art,
      js ''image'', js ''picture'', js ''photo'', js ''art'', js ''illustration'']"

definition imagePatterns :: "regex list" where
  "imagePatterns =
     [Seq WordB (Seq (OneOf [ru_sgeneriruj, ru_sgenerirujte, ru_narisuj, ru_narisujte,
                             ru_sozdaj, ru_sozdajte, ru_sdelaj, ru_sdelajte])
        (Seq Spaces (OneOf [ru_kartinku, ru_izobrazhenie, ru_risunok, ru_foto, ru_art]))),
      Seq WordB (Seq (OneOf [ru_narisuj, ru_narisujte, js ''draw'']) WordB),
      Seq WordB (Seq (OneOf [js ''generate'', js ''create'', js ''make'', js ''draw''])
        (Seq Spaces (OneOf [js ''image'', js ''picture'', js ''photo'', js ''art'',
                            js ''illustration'']))),
      Seq WordB (Seq (OneOf [ru_kartinku, ru_izobrazhenie]) WordB)]"

definition detectRequestType :: "platform \<Rightarrow> jstr \<Rightarrow> request_type" where
  "detectRequestType P message =
     (let lowerMessage = toLowerCase P message in
      if list_ex (js_includes lowerMessage) videoKeywords then VideoRequest
      else if list_ex (\<lambda>pattern. test P True pattern lowerMessage) imagePatterns
      then ImageRequest
      else TextRequest)"

text \<open>
  A message mentions a word when the word occurs in it at some position, letter case
  aside (as the \<^verbatim>\<open>i\<close> flag compares).
\<close>

definition mentions :: "platform \<Rightarrow> jstr \<Rightarrow> jstr \<Rightarrow> bool" where
  "mentions P s w = list_ex (\<lambda>i. lit_at P True s i w) [0 ..< Suc (length s)]"

section \<open>Data for closed examples\<close>

text \<open>
  A message as the client stores it (\<^verbatim>\<open>callAIAPI\<close> in app.js pushes
  \<^verbatim>\<open>{type: 'user', text, files, timestamp}\<close>): it has no field \<^verbatim>\<open>content\<close>.
\<close>

definition userMessage :: "jstr \<Rightarrow> instant \<Rightarrow> message" where
  "userMessage txt t =
     \<lparr>m_type = ''user'', m_text = txt, m_content = None, m_image = None, m_video = None,
      m_timestamp = t\<rparr>"

text \<open>The request body \<^verbatim>\<open>{messages: [...]}\<close>.\<close>

definition messagesOnly :: "message list \<Rightarrow> chat_updates" where
  "messagesOnly ms =
     \<lparr>up_id = None, up_userId = None, up_title = None, up_messages = Some ms,
      up_model = None, up_createdAt = None, up_updatedAt = None\<rparr>"

text \<open>
  Stand-ins for the platform functions, for the examples only. The JSON text
  \<^verbatim>\<open>{"id":7}\<close> is the \<^verbatim>\<open>user\<close> parameter of the example \<^verbatim>\<open>initData\<close>, which arrives
  percent-encoded. Lower case and case folding are those of the library on the code
  units of the Basic Latin and Cyrillic blocks, which is where the examples stay; the
  stand-ins return every other code unit unchanged.
\<close>

definition exampleUserJson :: string where
  "exampleUserJson = ''{'' @ [CHR 0x22] @ ''id'' @ [CHR 0x22] @ '':7}''"

definition lower_unit :: "nat \<Rightarrow> nat" where
  "lower_unit c =
     (if 0x41 \<le> c \<and> c \<le> 0x5A then c + 0x20
      else if 0x410 \<le> c \<and> c \<le> 0x42F then c + 0x20
      else if 0x400 \<le> c \<and> c \<le> 0x40F then c + 0x50
      else c)"

definition fold_unit :: "nat \<Rightarrow> nat" where
  "fold_unit c =
     (if 0x61 \<le> c \<and> c \<le> 0x7A then c - 0x20
      else if 0x430 \<le> c \<and> c \<le> 0x44F then c - 0x20
      else if 0x450 \<le> c \<and> c \<le> 0x45F then c - 0x50
      else c)"

definition examplePlatform :: platform where
  "examplePlatform =
     \<lparr>sha256_hex = (\<lambda>s. ''sha:'' @ s),
      md5_hex = (\<lambda>s. ''md5:'' @ s),
      hmac_sha256 = (\<lambda>k m. k @ ''/'' @ m),
      hex_of = (\<lambda>s. s),
      searchParams =
        (\<lambda>s. if s = ''user=%7B%22id%22%3A7%7D&hash=bad''
             then [(''user'', exampleUserJson), (''hash'', ''bad'')]
             else if s = ''user=%7B%22id%22%3A7%7D'' then [(''user'', exampleUserJson)]
             else []),
      localeCompare = (\<lambda>a b. int (length a) - int (length b)),
      parseTelegramUser =
        (\<lambda>s. if s = exampleUserJson
             then Some \<lparr>tg_id = Some 7, tg_username = None, tg_first_name = None,
                         tg_last_name = None\<rparr>
             else None),
      numberToString = dec,
      toLowerCase = map lower_unit,
      canonicalize = fold_unit\<rparr>"


definition exampleChat :: chat where
  "exampleChat =
     \<lparr>c_id = ''chat_1000'', c_userId = ''u1'', title = js ''t'', messages = [],
      model = ''gpt-5'', c_createdAt = 1000, updatedAt = 1000\<rparr>"

definition exampleDoc :: db where
  "exampleDoc = defaultDB\<lparr>chats := [exampleChat]\<rparr>"

definition exampleStore :: fs_state where
  "exampleStore = \<lparr>fcontent = Stored exampleDoc, writes = 1\<rparr>"

definition exampleAlice :: user where
  "exampleAlice =
     \<lparr>u_id = ''1000'', username = ''alice'', password = Some ''sha:secret'',
      apiKey = ''sk-00'', telegramId = None, firstName = None, lastName = None,
      u_createdAt = 1000\<rparr>"

definition exampleTelegramUser :: user where
  "exampleTelegramUser =
     \<lparr>u_id = ''tg_7'', username = ''user_7'', password = None,
      apiKey = ''sk-01'', telegramId = Some 7, firstName = None, lastName = None,
      u_createdAt = 1000\<rparr>"

definition exampleAuthDoc :: db where
  "exampleAuthDoc = defaultDB\<lparr>users := [exampleAlice, exampleTelegramUser]\<rparr>"

definition exampleAuthStore :: fs_state where
  "exampleAuthStore = \<lparr>fcontent = Stored exampleAuthDoc, writes = 2\<rparr>"

definition exampleSession :: session where
  "exampleSession = \<lparr>token = ''sess_a'', s_userId = ''1000'', s_createdAt = 2000,
                      expiresAt = 9000\<rparr>"

definition exampleSessionDoc :: db where
  "exampleSessionDoc = exampleAuthDoc\<lparr>sessions := Some [exampleSession]\<rparr>"

definition exampleSessionStore :: fs_state where
  "exampleSessionStore = \<lparr>fcontent = Stored exampleSessionDoc, writes = 3\<rparr>"

definition exampleSessionB :: session where
  "exampleSessionB = \<lparr>token = ''sess_b'', s_userId = ''1000'', s_createdAt = 3000,
                       expiresAt = 9500\<rparr>"

definition exampleSessionC :: session where
  "exampleSessionC = \<lparr>token = ''sess_c'', s_userId = ''1000'', s_createdAt = 4000,
                       expiresAt = 9900\<rparr>"

text \<open>A store in which the user has logged in three times.\<close>

definition exampleThreeStore :: fs_state where
  "exampleThreeStore =
     \<lparr>fcontent = Stored (exampleAuthDoc\<lparr>sessions :=
                   Some [exampleSession, exampleSessionB, exampleSessionC]\<rparr>),
      writes = 5\<rparr>"

text \<open>A store in which three sessions of the user carry the same token.\<close>

definition exampleDuplicateStore :: fs_state where
  "exampleDuplicateStore =
     \<lparr>fcontent = Stored (exampleAuthDoc\<lparr>sessions :=
                   Some [exampleSession, exampleSession\<lparr>s_createdAt := 3000\<rparr>,
                         exampleSession\<lparr>s_createdAt := 4000\<rparr>]\<rparr>),
      writes = 5\<rparr>"

text \<open>
  A store with the chat \<^verbatim>\<open>chat_1000\<close> of user \<^verbatim>\<open>u1\<close> holding the user message
  \<^verbatim>\<open>narisuj kota\<close> (in Cyrillic) as the client stores it, and the same store with the
  text under the key \<^verbatim>\<open>content\<close> instead.
\<close>

definition exampleCatStore :: fs_state where
  "exampleCatStore =
     \<lparr>fcontent = Stored (defaultDB\<lparr>chats :=
        [exampleChat\<lparr>messages := [userMessage (ru_narisuj @ js '' '' @ ru_kota) 1500]\<rparr>]\<rparr>),
      writes = 2\<rparr>"

definition exampleCatContentStore :: fs_state where
  "exampleCatContentStore =
     \<lparr>fcontent = Stored (defaultDB\<lparr>chats :=
        [exampleChat\<lparr>messages :=
           [(userMessage [] 1500)\<lparr>m_content := Some (ru_narisuj @ js '' '' @ ru_kota)\<rparr>]\<rparr>]\<rparr>),
      writes = 2\<rparr>"

section \<open>Reading the store\<close>

lemma readDB_Stored: "fcontent st = Stored d \<Longrightarrow> readDB st = (d, st)"
  by (simp add: readDB_def ensureDBExists_def)

lemma ensureDBExists_Stored: "fcontent st = Stored d \<Longrightarrow> ensureDBExists st = st"
  by (simp add: ensureDBExists_def)

lemma readDB_ensureDBExists: "readDB (ensureDBExists st) = readDB st"
  by (cases "fcontent st") (simp_all add: readDB_def ensureDBExists_def writeFile_def)

text \<open>
  C2 (as amended). When the file is missing or does not parse, \<^verbatim>\<open>readDB\<close> returns and
  writes the default document, whose top-level keys are exactly \<^verbatim>\<open>users\<close>, \<^verbatim>\<open>chats\<close>
  and \<^verbatim>\<open>apiKeys\<close>: the two arrays are empty and there is no key \<^verbatim>\<open>sessions\<close>.
\<close>

theorem store_recreated_with_default:
  assumes "fcontent st = Missing \<or> fcontent st = Unparsable"
  shows "fst (readDB st) = defaultDB
       \<and> fcontent (snd (readDB st)) = Stored defaultDB
       \<and> top_level_keys (fst (readDB st)) = [''users'', ''chats'', ''apiKeys'']
       \<and> users (fst (readDB st)) = [] \<and> chats (fst (readDB st)) = []
       \<and> sessions (fst (readDB st)) = None"
  using assms
  by (auto simp add: readDB_def ensureDBExists_def writeFile_def top_level_keys_def defaultDB_def)

theorem store_recreated_with_default_witness:
  "fcontent \<lparr>fcontent = Unparsable, writes = 4\<rparr> = Unparsable
   \<and> top_level_keys (fst (readDB \<lparr>fcontent = Unparsable, writes = 4\<rparr>))
       = [''users'', ''chats'', ''apiKeys'']
   \<and> fcontent (snd (readDB \<lparr>fcontent = Unparsable, writes = 4\<rparr>)) = Stored defaultDB"
proof -
  have h: "fcontent \<lparr>fcontent = Unparsable, writes = 4\<rparr> = Unparsable"
    by simp
  from store_recreated_with_default [of "\<lparr>fcontent = Unparsable, writes = 4\<rparr>"] h
  show ?thesis by blast
qed

text \<open>
  C2 as stated fails: the document recreated for a missing file has no key
  \<^verbatim>\<open>sessions\<close>.
\<close>

theorem store_recreated_keys_counterexample:
  "''sessions'' \<notin> set (top_level_keys (fst (readDB \<lparr>fcontent = Missing, writes = 0\<rparr>)))"
  by (simp add: readDB_def ensureDBExists_def writeFile_def top_level_keys_def defaultDB_def)

section \<open>The chat routes\<close>

lemma findIndex_None_iff: "findIndex p xs = None \<longleftrightarrow> (\<forall>x \<in> set xs. \<not> p x)"
  by (induction xs) auto

lemma findIndex_Some:
  "findIndex p xs = Some i \<Longrightarrow> i < length xs \<and> p (xs ! i) \<and> (\<forall>j < i. \<not> p (xs ! j))"
proof (induction xs arbitrary: i)
  case Nil
  then show ?case by simp
next
  case (Cons x xs)
  show ?case
  proof (cases "p x")
    case True
    with Cons.prems show ?thesis by simp
  next
    case False
    with Cons.prems obtain k where k: "findIndex p xs = Some k" "i = Suc k"
      by auto
    from Cons.IH [OF k(1)] have ih: "k < length xs" "p (xs ! k)" "\<forall>j < k. \<not> p (xs ! j)"
      by simp_all
    have "\<forall>j < Suc k. \<not> p ((x # xs) ! j)"
    proof (intro allI impI)
      fix j assume "j < Suc k"
      then show "\<not> p ((x # xs) ! j)"
        using False ih(3) by (cases j) simp_all
    qed
    with ih k show ?thesis by simp
  qed
qed

lemma findIndex_append_fresh:
  "\<forall>x \<in> set xs. \<not> p x \<Longrightarrow> p y \<Longrightarrow> findIndex p (xs @ y # ys) = Some (length xs)"
  by (induction xs) simp_all

lemma readDB_stores: "fcontent (snd (readDB st)) = Stored (fst (readDB st))"
  by (cases "fcontent st") (simp_all add: readDB_def ensureDBExists_def writeFile_def)

text \<open>
  C6 (as amended). For a store file that holds a document and a chat id that no chat of
  the document has, \<^verbatim>\<open>DELETE /api/chats/:chatId\<close> (behind the middleware) answers 404 and
  leaves the file system as it was: the same document and the same number of writes.
  When the file is missing or does not parse, the route answers 404 as well, and the
  store has been recreated with the default document by one write.
\<close>

theorem delete_unknown_chat_leaves_store:
  "(fcontent st = Stored d \<and> chatId \<notin> c_id ` set (chats d) \<longrightarrow>
      middleware (deleteChat chatId) st = (Failure 404 ''Chat not found'', st))
   \<and> (fcontent st = Missing \<or> fcontent st = Unparsable \<longrightarrow>
        middleware (deleteChat chatId) st
          = (Failure 404 ''Chat not found'',
             \<lparr>fcontent = Stored defaultDB, writes = Suc (writes st)\<rparr>))"
proof (intro conjI impI)
  assume a: "fcontent st = Stored d \<and> chatId \<notin> c_id ` set (chats d)"
  then have "findIndex (\<lambda>c. c_id c = chatId) (chats d) = None"
    by (auto simp add: findIndex_None_iff)
  with a show "middleware (deleteChat chatId) st = (Failure 404 ''Chat not found'', st)"
    by (simp add: middleware_def deleteChat_def ensureDBExists_Stored readDB_Stored)
next
  assume "fcontent st = Missing \<or> fcontent st = Unparsable"
  then show "middleware (deleteChat chatId) st
          = (Failure 404 ''Chat not found'',
             \<lparr>fcontent = Stored defaultDB, writes = Suc (writes st)\<rparr>)"
    by (auto simp add: middleware_def deleteChat_def readDB_def ensureDBExists_def writeFile_def
        defaultDB_def)
qed

theorem delete_unknown_chat_leaves_store_witness:
  "fcontent exampleStore = Stored exampleDoc
   \<and> ''chat_7'' \<notin> c_id ` set (chats exampleDoc)
   \<and> middleware (deleteChat ''chat_7'') exampleStore = (Failure 404 ''Chat not found'', exampleStore)
   \<and> middleware (deleteChat ''chat_7'') \<lparr>fcontent = Missing, writes = 0\<rparr>
       = (Failure 404 ''Chat not found'', \<lparr>fcontent = Stored defaultDB, writes = 1\<rparr>)"
proof -
  have h1: "fcontent exampleStore = Stored exampleDoc"
    by (simp add: exampleStore_def)
  have h2: "''chat_7'' \<notin> c_id ` set (chats exampleDoc)"
    by (simp add: exampleDoc_def exampleChat_def)
  from delete_unknown_chat_leaves_store [of exampleStore exampleDoc "''chat_7''"] h1 h2
  have c1: "middleware (deleteChat ''chat_7'') exampleStore
      = (Failure 404 ''Chat not found'', exampleStore)"
    by blast
  from delete_unknown_chat_leaves_store [of "\<lparr>fcontent = Missing, writes = 0\<rparr>" _ "''chat_7''"]
  have c2: "middleware (deleteChat ''chat_7'') \<lparr>fcontent = Missing, writes = 0\<rparr>
       = (Failure 404 ''Chat not found'', \<lparr>fcontent = Stored defaultDB, writes = 1\<rparr>)"
    by simp
  show ?thesis using h1 h2 c1 c2 by blast
qed

text \<open>
  C6 as stated fails: on a store file that does not parse, the route answers 404 for an
  unknown id and the file has been written once, with the default document.
\<close>

theorem delete_unparsable_store_counterexample:
  "middleware (deleteChat ''chat_7'') \<lparr>fcontent = Unparsable, writes = 4\<rparr>
     = (Failure 404 ''Chat not found'', \<lparr>fcontent = Stored defaultDB, writes = 5\<rparr>)
   \<and> snd (middleware (deleteChat ''chat_7'') \<lparr>fcontent = Unparsable, writes = 4\<rparr>)
       \<noteq> \<lparr>fcontent = Unparsable, writes = 4\<rparr>"
  by (simp add: middleware_def deleteChat_def readDB_def ensureDBExists_def writeFile_def
      defaultDB_def)




section \<open>Sessions\<close>

lemma sevenDays_ms: "sevenDays = 604800000"
  by (simp add: sevenDays_def)

lemma set_cleanOldSessions: "set (cleanOldSessions uid ss) \<subseteq> set ss"
  by (auto simp add: cleanOldSessions_def sessionsOfUser_def Let_def)

lemma find_append_fresh:
  "\<forall>x \<in> set xs. \<not> p x \<Longrightarrow> p y \<Longrightarrow> find p (xs @ [y]) = Some y"
  by (induction xs) simp_all

lemma issued_session:
  assumes "st' = writeDB (d\<lparr>users := us, sessions := Some (cleanOldSessions uid (sessions_of d) @
              [newSession tok uid tC tI])\<rparr>) st1"
  shows "\<exists>d' ss s. fcontent st' = Stored d' \<and> sessions d' = Some (ss @ [s])
           \<and> set ss \<subseteq> set (sessions_of d)
           \<and> token s = tok \<and> s_createdAt s = tC \<and> expiresAt s = tI + 604800000"
proof -
  let ?ss = "cleanOldSessions uid (sessions_of d)"
  let ?s = "newSession tok uid tC tI"
  have "fcontent st' = Stored (d\<lparr>users := us, sessions := Some (?ss @ [?s])\<rparr>)"
    by (simp add: assms writeDB_def writeFile_def)
  moreover have "sessions (d\<lparr>users := us, sessions := Some (?ss @ [?s])\<rparr>) = Some (?ss @ [?s])"
    by simp
  moreover have "set ?ss \<subseteq> set (sessions_of d)"
    by (rule set_cleanOldSessions)
  moreover have "token ?s = tok" "s_createdAt ?s = tC" "expiresAt ?s = tI + 604800000"
    by (simp_all add: sevenDays_ms newSession_def)
  ultimately show ?thesis by blast
qed

lemma login_success_session:
  assumes "login P tTok tCreated tIssued rnd8 uname pw st = (Success n body, st')"
  shows "\<exists>d' ss s. fcontent st' = Stored d' \<and> sessions d' = Some (ss @ [s])
           \<and> set ss \<subseteq> set (sessions_of (fst (readDB st)))
           \<and> token s = snd body \<and> s_createdAt s = tCreated
           \<and> expiresAt s = tIssued + 604800000"
proof -
  let ?d = "fst (readDB st)"
  let ?f = "find (\<lambda>u. username u = uname \<and> password u = Some (hashPassword P pw)) (users ?d)"
  from assms have ne: "\<not> (uname = [] \<or> pw = [])"
    by (auto simp add: login_def)
  from assms ne obtain u where u: "?f = Some u"
    by (cases ?f) (auto simp add: login_def split_beta)
  let ?tok = "generateSessionToken P tTok rnd8 (u_id u)"
  from assms ne u have body: "snd body = ?tok"
    and st': "st' = writeDB (?d\<lparr>users := users ?d, sessions := Some (cleanOldSessions (u_id u) (sessions_of ?d) @
              [newSession ?tok (u_id u) tCreated tIssued])\<rparr>) (snd (readDB st))"
    by (auto simp add: login_def split_beta Let_def)
  from issued_session [OF st'] body show ?thesis by simp
qed

lemma login_success_store:
  assumes "login P tTok tCreated tIssued rnd8 uname pw st = (Success n body, st')"
  shows "fcontent st' = Stored ((fst (readDB st))\<lparr>sessions :=
           Some (cleanOldSessions (u_id (fst body)) (sessions_of (fst (readDB st))) @
                 [newSession (snd body) (u_id (fst body)) tCreated tIssued])\<rparr>)"
proof -
  let ?d = "fst (readDB st)"
  let ?f = "find (\<lambda>u. username u = uname \<and> password u = Some (hashPassword P pw)) (users ?d)"
  from assms have ne: "\<not> (uname = [] \<or> pw = [])"
    by (auto simp add: login_def)
  from assms ne obtain u where u: "?f = Some u"
    by (cases ?f) (auto simp add: login_def split_beta)
  from assms ne u have "body = (userResponse u, generateSessionToken P tTok rnd8 (u_id u))"
    and "st' = writeDB (?d\<lparr>sessions := Some (cleanOldSessions (u_id u) (sessions_of ?d) @
              [newSession (generateSessionToken P tTok rnd8 (u_id u)) (u_id u) tCreated tIssued])\<rparr>)
              (snd (readDB st))"
    by (auto simp add: login_def split_beta Let_def)
  then show ?thesis
    by (simp add: writeDB_def writeFile_def userResponse_def)
qed

lemma telegramAuth_success_session:
  assumes "telegramAuth P botToken tUser tTok tCreated tIssued rnd32 rnd8 initData st
             = (Success n body, st')"
  shows "\<exists>d' ss s. fcontent st' = Stored d' \<and> sessions d' = Some (ss @ [s])
           \<and> set ss \<subseteq> set (sessions_of (fst (readDB st)))
           \<and> token s = snd body \<and> s_createdAt s = tCreated
           \<and> expiresAt s = tIssued + 604800000"
proof -
  let ?d = "fst (readDB st)"
  from assms have ne: "initData \<noteq> []"
    by (auto simp add: telegramAuth_def)
  from assms ne have ok: "\<not> (case botToken of None \<Rightarrow> False
               | Some t \<Rightarrow> t \<noteq> [] \<and> \<not> verifyTelegramWebAppData P initData t)"
    by (auto simp add: telegramAuth_def)
  from assms ne ok obtain up where up: "params_get ''user'' (searchParams P initData) = Some up"
    by (cases "params_get ''user'' (searchParams P initData)") (auto simp add: telegramAuth_def)
  from assms ne ok up have upne: "up \<noteq> []"
    by (auto simp add: telegramAuth_def)
  from assms ne ok up upne obtain tu where tu: "parseTelegramUser P up = Some tu"
    by (cases "parseTelegramUser P up") (auto simp add: telegramAuth_def)
  show ?thesis
  proof (cases "find (\<lambda>u. telegramId u = tg_id tu) (users ?d)")
    case None
    let ?u = "newTelegramUser P tu rnd32 tUser"
    let ?tok = "generateSessionToken P tTok rnd8 (u_id ?u)"
    from assms ne ok up upne tu None
    have body: "snd body = ?tok"
      and st': "st' = writeDB (?d\<lparr>users := users ?d @ [?u],
              sessions := Some (cleanOldSessions (u_id ?u) (sessions_of ?d) @
              [newSession ?tok (u_id ?u) tCreated tIssued])\<rparr>) (snd (readDB st))"
      by (auto simp add: telegramAuth_def split_beta Let_def)
    from issued_session [OF st'] body show ?thesis by simp
  next
    case (Some u)
    let ?tok = "generateSessionToken P tTok rnd8 (u_id u)"
    from assms ne ok up upne tu Some
    have body: "snd body = ?tok"
      and st': "st' = writeDB (?d\<lparr>users := users ?d,
              sessions := Some (cleanOldSessions (u_id u) (sessions_of ?d) @
              [newSession ?tok (u_id u) tCreated tIssued])\<rparr>) (snd (readDB st))"
      by (auto simp add: telegramAuth_def split_beta Let_def)
    from issued_session [OF st'] body show ?thesis by simp
  qed
qed

lemma verifySession_expired_iff:
  assumes "fcontent st = Stored d" "sessions d = Some ss" "find (\<lambda>x. token x = tok) ss = Some s"
  shows "fst (verifySession now (Some (''Bearer '' @ tok)) st) = Failure 401 ''Session expired''
           \<longleftrightarrow> expiresAt s < now"
  using assms
  by (auto simp add: verifySession_def readDB_Stored Let_def split: option.splits)

text \<open>
  C4 (as amended). A session stored by a successful login or Telegram login is the last
  of the stored sessions. Its \<^verbatim>\<open>expiresAt\<close> is the clock reading taken for it plus
  604800000 ms; its \<^verbatim>\<open>createdAt\<close> is another reading of the clock, so \<^verbatim>\<open>expiresAt\<close> lies
  after \<^verbatim>\<open>createdAt\<close> by seven days and the time between the two readings, seven days
  exactly when the readings agree. When its token is not the token of an older session,
  it is the session that \<^verbatim>\<open>verify-session\<close> finds for the token. For the session found
  for a token, \<^verbatim>\<open>verify-session\<close> one millisecond after \<^verbatim>\<open>expiresAt\<close> answers 401
  `Session expired', and at any instant up to \<^verbatim>\<open>expiresAt\<close> it does not.
\<close>

theorem session_expires_after_seven_days:
  "(login P tTok tCreated tIssued rnd8 uname pw st = (Success n body, st') \<longrightarrow>
      (\<exists>d' ss s. fcontent st' = Stored d' \<and> sessions d' = Some (ss @ [s])
         \<and> token s = snd body \<and> s_createdAt s = tCreated
         \<and> expiresAt s = tIssued + 604800000
         \<and> expiresAt s - s_createdAt s = 604800000 + (tIssued - tCreated)
         \<and> (snd body \<notin> token ` set (sessions_of (fst (readDB st))) \<longrightarrow>
              find (\<lambda>x. token x = snd body) (ss @ [s]) = Some s)))
   \<and> (telegramAuth P botToken tUser tTok2 tCreated2 tIssued2 rnd32 rnd8' initData st2
         = (Success n2 body2, st2') \<longrightarrow>
      (\<exists>d' ss s. fcontent st2' = Stored d' \<and> sessions d' = Some (ss @ [s])
         \<and> token s = snd body2 \<and> s_createdAt s = tCreated2
         \<and> expiresAt s = tIssued2 + 604800000
         \<and> expiresAt s - s_createdAt s = 604800000 + (tIssued2 - tCreated2)
         \<and> (snd body2 \<notin> token ` set (sessions_of (fst (readDB st2))) \<longrightarrow>
              find (\<lambda>x. token x = snd body2) (ss @ [s]) = Some s)))
   \<and> (fcontent st3 = Stored d3 \<and> sessions d3 = Some ss3
        \<and> find (\<lambda>x. token x = tok) ss3 = Some s3 \<longrightarrow>
        fst (verifySession (expiresAt s3 + 1) (Some (''Bearer '' @ tok)) st3)
          = Failure 401 ''Session expired''
        \<and> (\<forall>now. now \<le> expiresAt s3 \<longrightarrow>
             fst (verifySession now (Some (''Bearer '' @ tok)) st3)
               \<noteq> Failure 401 ''Session expired''))"
proof (intro conjI impI)
  assume a: "login P tTok tCreated tIssued rnd8 uname pw st = (Success n body, st')"
  from login_success_session [OF a] obtain d' ss s where
    s: "fcontent st' = Stored d'" "sessions d' = Some (ss @ [s])"
       "set ss \<subseteq> set (sessions_of (fst (readDB st)))"
       "token s = snd body" "s_createdAt s = tCreated" "expiresAt s = tIssued + 604800000"
    by blast
  have gap: "expiresAt s - s_createdAt s = 604800000 + (tIssued - tCreated)"
    using s(5,6) by simp
  have "snd body \<notin> token ` set (sessions_of (fst (readDB st))) \<longrightarrow>
          find (\<lambda>x. token x = snd body) (ss @ [s]) = Some s"
  proof
    assume "snd body \<notin> token ` set (sessions_of (fst (readDB st)))"
    with s(3) have "\<forall>x \<in> set ss. \<not> token x = snd body" by (metis imageI subsetD)
    then show "find (\<lambda>x. token x = snd body) (ss @ [s]) = Some s"
      using s(4) by (rule find_append_fresh)
  qed
  with s gap show "\<exists>d' ss s. fcontent st' = Stored d' \<and> sessions d' = Some (ss @ [s])
         \<and> token s = snd body \<and> s_createdAt s = tCreated
         \<and> expiresAt s = tIssued + 604800000
         \<and> expiresAt s - s_createdAt s = 604800000 + (tIssued - tCreated)
         \<and> (snd body \<notin> token ` set (sessions_of (fst (readDB st))) \<longrightarrow>
              find (\<lambda>x. token x = snd body) (ss @ [s]) = Some s)"
    by blast
next
  assume a: "telegramAuth P botToken tUser tTok2 tCreated2 tIssued2 rnd32 rnd8' initData st2
         = (Success n2 body2, st2')"
  from telegramAuth_success_session [OF a] obtain d' ss s where
    s: "fcontent st2' = Stored d'" "sessions d' = Some (ss @ [s])"
       "set ss \<subseteq> set (sessions_of (fst (readDB st2)))"
       "token s = snd body2" "s_createdAt s = tCreated2" "expiresAt s = tIssued2 + 604800000"
    by blast
  have gap: "expiresAt s - s_createdAt s = 604800000 + (tIssued2 - tCreated2)"
    using s(5,6) by simp
  have "snd body2 \<notin> token ` set (sessions_of (fst (readDB st2))) \<longrightarrow>
          find (\<lambda>x. token x = snd body2) (ss @ [s]) = Some s"
  proof
    assume "snd body2 \<notin> token ` set (sessions_of (fst (readDB st2)))"
    with s(3) have "\<forall>x \<in> set ss. \<not> token x = snd body2" by (metis imageI subsetD)
    then show "find (\<lambda>x. token x = snd body2) (ss @ [s]) = Some s"
      using s(4) by (rule find_append_fresh)
  qed
  with s gap show "\<exists>d' ss s. fcontent st2' = Stored d' \<and> sessions d' = Some (ss @ [s])
         \<and> token s = snd body2 \<and> s_createdAt s = tCreated2
         \<and> expiresAt s = tIssued2 + 604800000
         \<and> expiresAt s - s_createdAt s = 604800000 + (tIssued2 - tCreated2)
         \<and> (snd body2 \<notin> token ` set (sessions_of (fst (readDB st2))) \<longrightarrow>
              find (\<lambda>x. token x = snd body2) (ss @ [s]) = Some s)"
    by blast
next
  assume a: "fcontent st3 = Stored d3 \<and> sessions d3 = Some ss3
        \<and> find (\<lambda>x. token x = tok) ss3 = Some s3"
  then have iff: "fst (verifySession now (Some (''Bearer '' @ tok)) st3)
      = Failure 401 ''Session expired'' \<longleftrightarrow> expiresAt s3 < now" for now
    using verifySession_expired_iff by blast
  show "fst (verifySession (expiresAt s3 + 1) (Some (''Bearer '' @ tok)) st3)
          = Failure 401 ''Session expired''"
    using iff [of "expiresAt s3 + 1"] by simp
  show "\<forall>now. now \<le> expiresAt s3 \<longrightarrow>
             fst (verifySession now (Some (''Bearer '' @ tok)) st3)
               \<noteq> Failure 401 ''Session expired''"
  proof (intro allI impI)
    fix now :: int
    assume "now \<le> expiresAt s3"
    with iff [of now]
    show "fst (verifySession now (Some (''Bearer '' @ tok)) st3) \<noteq> Failure 401 ''Session expired''"
      by simp
  qed
qed

theorem session_expires_after_seven_days_witness:
  "fst (login examplePlatform 5000 5001 5002 ''r8'' ''alice'' ''secret'' exampleAuthStore)
     = Success 200 (userResponse exampleAlice, ''sess_5000_r8_md5:1000'')
   \<and> (\<exists>d' ss s. fcontent (snd (login examplePlatform 5000 5001 5002 ''r8'' ''alice'' ''secret''
                                 exampleAuthStore)) = Stored d'
         \<and> sessions d' = Some (ss @ [s]) \<and> token s = ''sess_5000_r8_md5:1000''
         \<and> s_createdAt s = 5001 \<and> expiresAt s = 5002 + 604800000
         \<and> expiresAt s - s_createdAt s = 604800000 + 1
         \<and> find (\<lambda>x. token x = ''sess_5000_r8_md5:1000'') (ss @ [s]) = Some s)
   \<and> fst (telegramAuth examplePlatform None 6000 6001 6002 6002 ''k32'' ''r9''
            ''user=%7B%22id%22%3A7%7D'' exampleAuthStore)
     = Success 200 (userResponse exampleTelegramUser, ''sess_6001_r9_md5:tg_7'')
   \<and> (\<exists>d' ss s. fcontent (snd (telegramAuth examplePlatform None 6000 6001 6002 6002 ''k32''
                                 ''r9'' ''user=%7B%22id%22%3A7%7D'' exampleAuthStore)) = Stored d'
         \<and> sessions d' = Some (ss @ [s]) \<and> token s = ''sess_6001_r9_md5:tg_7''
         \<and> s_createdAt s = 6002 \<and> expiresAt s = 6002 + 604800000
         \<and> expiresAt s - s_createdAt s = 604800000)
   \<and> find (\<lambda>x. token x = ''sess_a'') [exampleSession] = Some exampleSession
   \<and> fst (verifySession 9001 (Some ''Bearer sess_a'') exampleSessionStore)
       = Failure 401 ''Session expired''
   \<and> fst (verifySession 9000 (Some ''Bearer sess_a'') exampleSessionStore)
       \<noteq> Failure 401 ''Session expired''"
proof -
  let ?L = "login examplePlatform 5000 5001 5002 ''r8'' ''alice'' ''secret'' exampleAuthStore"
  let ?T = "telegramAuth examplePlatform None 6000 6001 6002 6002 ''k32'' ''r9''
              ''user=%7B%22id%22%3A7%7D'' exampleAuthStore"
  have d1: "dec 5000 = ''5000''" and d2: "dec 6001 = ''6001''"
    by (simp_all add: dec_def digit_def)
  have l: "fst ?L = Success 200 (userResponse exampleAlice, ''sess_5000_r8_md5:1000'')"
    by (simp add: login_def readDB_def ensureDBExists_def exampleAuthStore_def
        exampleAuthDoc_def exampleAlice_def exampleTelegramUser_def examplePlatform_def
        hashPassword_def generateSessionToken_def d1 Let_def)
  have t: "fst ?T = Success 200 (userResponse exampleTelegramUser, ''sess_6001_r9_md5:tg_7'')"
    by (simp add: telegramAuth_def readDB_def ensureDBExists_def exampleAuthStore_def
        exampleAuthDoc_def exampleAlice_def exampleTelegramUser_def examplePlatform_def
        exampleUserJson_def params_get_def generateSessionToken_def d2 Let_def)
  have fresh: "''sess_5000_r8_md5:1000'' \<notin> token ` set (sessions_of (fst (readDB exampleAuthStore)))"
    by (simp add: sessions_of_def readDB_def ensureDBExists_def exampleAuthStore_def
        exampleAuthDoc_def defaultDB_def)
  have v: "fcontent exampleSessionStore = Stored exampleSessionDoc
      \<and> sessions exampleSessionDoc = Some [exampleSession]
      \<and> find (\<lambda>x. token x = ''sess_a'') [exampleSession] = Some exampleSession"
    by (simp add: exampleSessionStore_def exampleSessionDoc_def exampleSession_def)
  have e: "expiresAt exampleSession = 9000"
    by (simp add: exampleSession_def)
  note inst = session_expires_after_seven_days
    [of examplePlatform 5000 5001 5002 "''r8''" "''alice''" "''secret''" exampleAuthStore 200
        "(userResponse exampleAlice, ''sess_5000_r8_md5:1000'')" "snd ?L"
        None 6000 6001 6002 6002 "''k32''" "''r9''" "''user=%7B%22id%22%3A7%7D''"
        exampleAuthStore 200
        "(userResponse exampleTelegramUser, ''sess_6001_r9_md5:tg_7'')" "snd ?T"
        exampleSessionStore exampleSessionDoc "[exampleSession]" "''sess_a''" exampleSession]
  have le: "?L = (Success 200 (userResponse exampleAlice, ''sess_5000_r8_md5:1000''), snd ?L)"
    using l by (simp add: prod_eq_iff)
  have te: "?T = (Success 200 (userResponse exampleTelegramUser, ''sess_6001_r9_md5:tg_7''), snd ?T)"
    using t by (simp add: prod_eq_iff)
  from inst le fresh have c1: "\<exists>d' ss s. fcontent (snd ?L) = Stored d'
         \<and> sessions d' = Some (ss @ [s]) \<and> token s = ''sess_5000_r8_md5:1000''
         \<and> s_createdAt s = 5001 \<and> expiresAt s = 5002 + 604800000
         \<and> expiresAt s - s_createdAt s = 604800000 + 1
         \<and> find (\<lambda>x. token x = ''sess_5000_r8_md5:1000'') (ss @ [s]) = Some s"
    by simp
  from inst te have c2: "\<exists>d' ss s. fcontent (snd ?T) = Stored d'
         \<and> sessions d' = Some (ss @ [s]) \<and> token s = ''sess_6001_r9_md5:tg_7''
         \<and> s_createdAt s = 6002 \<and> expiresAt s = 6002 + 604800000
         \<and> expiresAt s - s_createdAt s = 604800000"
    by auto
  from inst v e have c3: "fst (verifySession 9001 (Some ''Bearer sess_a'') exampleSessionStore)
       = Failure 401 ''Session expired''"
    by simp
  from inst v e have c4: "fst (verifySession 9000 (Some ''Bearer sess_a'') exampleSessionStore)
       \<noteq> Failure 401 ''Session expired''"
    by simp
  show ?thesis using l t v c1 c2 c3 c4 by blast
qed

text \<open>
  C4 as stated fails: when the clock advances between the reading for \<^verbatim>\<open>createdAt\<close>
  (5001) and the reading for \<^verbatim>\<open>expiresAt\<close> (5002), the session stored by the login
  expires 604800001 ms after its \<^verbatim>\<open>createdAt\<close>, not 604800000.
\<close>

theorem session_expiry_after_createdAt_counterexample:
  "sessions_of (fst (readDB (snd
      (login examplePlatform 5000 5001 5002 ''r8'' ''alice'' ''secret'' exampleAuthStore))))
     = [\<lparr>token = ''sess_5000_r8_md5:1000'', s_userId = ''1000'', s_createdAt = 5001,
         expiresAt = 604805002\<rparr>]
   \<and> (604805002 :: int) \<noteq> 5001 + 604800000"
proof -
  let ?L = "login examplePlatform 5000 5001 5002 ''r8'' ''alice'' ''secret'' exampleAuthStore"
  have r: "readDB exampleAuthStore = (exampleAuthDoc, exampleAuthStore)"
    by (simp add: readDB_Stored exampleAuthStore_def)
  have d1: "dec 5000 = ''5000''"
    by (simp add: dec_def digit_def)
  have l: "fst ?L = Success 200 (userResponse exampleAlice, ''sess_5000_r8_md5:1000'')"
    by (simp add: login_def r exampleAuthDoc_def exampleAlice_def exampleTelegramUser_def
        examplePlatform_def hashPassword_def generateSessionToken_def d1 Let_def)
  then have le: "?L = (Success 200 (userResponse exampleAlice, ''sess_5000_r8_md5:1000''), snd ?L)"
    by (simp add: prod_eq_iff)
  have uid: "u_id (fst (userResponse exampleAlice, ''sess_5000_r8_md5:1000'')) = ''1000''"
    by (simp add: userResponse_def exampleAlice_def)
  have none: "sessions_of exampleAuthDoc = []"
    by (simp add: sessions_of_def exampleAuthDoc_def defaultDB_def)
  have keep: "cleanOldSessions ''1000'' [] = []"
    by (simp add: cleanOldSessions_def sessionsOfUser_def)
  from login_success_store [OF le]
  have "fcontent (snd ?L) = Stored (exampleAuthDoc\<lparr>sessions :=
           Some [newSession ''sess_5000_r8_md5:1000'' ''1000'' 5001 5002]\<rparr>)"
    unfolding uid by (simp add: r none keep)
  then show ?thesis
    by (simp add: readDB_Stored sessions_of_def newSession_def sevenDays_def)
qed

section \<open>Login\<close>





section \<open>Chat ids\<close>

text \<open>
  An update or a delete by an id acts on the first chat with that id and on no other.
\<close>

lemma first_match_only:
  assumes "fcontent st = Stored d" and "findIndex (\<lambda>c. c_id c = cid) (chats d) = Some i"
  shows "i < length (chats d) \<and> c_id (chats d ! i) = cid \<and> (\<forall>j < i. c_id (chats d ! j) \<noteq> cid)
       \<and> fcontent (snd (updateChat now cid up st))
           = Stored (d\<lparr>chats := (chats d)[i := mergeChat (chats d ! i) up now]\<rparr>)
       \<and> fcontent (snd (deleteChat cid st))
           = Stored (d\<lparr>chats := take i (chats d) @ drop (Suc i) (chats d)\<rparr>)"
  using assms findIndex_Some [OF assms(2)]
  by (simp add: updateChat_def deleteChat_def readDB_Stored writeDB_def writeFile_def Let_def)

text \<open>
  C10. The id of a new chat is \<^verbatim>\<open>chat_\<close> followed by the clock reading, so two
  creations with the same reading store two chats with the same id, one after the
  other. An update by that id then replaces only the first of the two and a delete
  removes only the first; the second stays as it was. In any stored document, an
  update or a delete by an id acts on the first chat with that id only.
\<close>

theorem same_millisecond_chats_share_id:
  assumes st: "fcontent st = Stored d"
    and args: "userId1 \<noteq> []" "ttl1 \<noteq> []" "userId2 \<noteq> []" "ttl2 \<noteq> []"
    and fresh: "''chat_'' @ dec t \<notin> c_id ` set (chats d)"
  shows "(\<exists>c1 c2 st1 st2.
           createChat t tc1 tu1 userId1 ttl1 mdl1 st = (Success 201 c1, st1)
         \<and> createChat t tc2 tu2 userId2 ttl2 mdl2 st1 = (Success 201 c2, st2)
         \<and> c_id c1 = ''chat_'' @ dec t \<and> c_id c2 = c_id c1
         \<and> c_userId c1 = userId1 \<and> c_userId c2 = userId2
         \<and> fcontent st2 = Stored (d\<lparr>chats := chats d @ [c1, c2]\<rparr>)
         \<and> fcontent (snd (updateChat now (c_id c1) up st2))
             = Stored (d\<lparr>chats := chats d @ [mergeChat c1 up now, c2]\<rparr>)
         \<and> fcontent (snd (deleteChat (c_id c1) st2)) = Stored (d\<lparr>chats := chats d @ [c2]\<rparr>))
       \<and> (\<forall>cid i. findIndex (\<lambda>c. c_id c = cid) (chats d) = Some i \<longrightarrow>
           (\<forall>j < i. c_id (chats d ! j) \<noteq> cid)
         \<and> fcontent (snd (updateChat now cid up st))
             = Stored (d\<lparr>chats := (chats d)[i := mergeChat (chats d ! i) up now]\<rparr>)
         \<and> fcontent (snd (deleteChat cid st))
             = Stored (d\<lparr>chats := take i (chats d) @ drop (Suc i) (chats d)\<rparr>))"
proof -
  have general: "\<forall>cid i. findIndex (\<lambda>c. c_id c = cid) (chats d) = Some i \<longrightarrow>
           (\<forall>j < i. c_id (chats d ! j) \<noteq> cid)
         \<and> fcontent (snd (updateChat now cid up st))
             = Stored (d\<lparr>chats := (chats d)[i := mergeChat (chats d ! i) up now]\<rparr>)
         \<and> fcontent (snd (deleteChat cid st))
             = Stored (d\<lparr>chats := take i (chats d) @ drop (Suc i) (chats d)\<rparr>)"
    using first_match_only [OF st] by blast
  define c1 where "c1 = \<lparr>c_id = ''chat_'' @ dec t, c_userId = userId1, title = ttl1,
                       messages = [],
                       model = (case mdl1 of None \<Rightarrow> ''gpt-5''
                                | Some m \<Rightarrow> if m = [] then ''gpt-5'' else m),
                       c_createdAt = tc1, updatedAt = tu1\<rparr>"
  define c2 where "c2 = \<lparr>c_id = ''chat_'' @ dec t, c_userId = userId2, title = ttl2,
                       messages = [],
                       model = (case mdl2 of None \<Rightarrow> ''gpt-5''
                                | Some m \<Rightarrow> if m = [] then ''gpt-5'' else m),
                       c_createdAt = tc2, updatedAt = tu2\<rparr>"
  define st1 where "st1 = \<lparr>fcontent = Stored (d\<lparr>chats := chats d @ [c1]\<rparr>), writes = Suc (writes st)\<rparr>"
  define st2 where "st2 = \<lparr>fcontent = Stored (d\<lparr>chats := chats d @ [c1, c2]\<rparr>),
                           writes = Suc (Suc (writes st))\<rparr>"
  have cr1: "createChat t tc1 tu1 userId1 ttl1 mdl1 st = (Success 201 c1, st1)"
    using st args
    by (simp add: createChat_def readDB_Stored writeDB_def writeFile_def c1_def st1_def Let_def)
  have f1: "fcontent st1 = Stored (d\<lparr>chats := chats d @ [c1]\<rparr>)"
    by (simp add: st1_def)
  have w1: "writes st1 = Suc (writes st)"
    by (simp add: st1_def)
  have cr2: "createChat t tc2 tu2 userId2 ttl2 mdl2 st1 = (Success 201 c2, st2)"
    using args
    by (simp add: createChat_def readDB_Stored [OF f1] writeDB_def writeFile_def c2_def w1
        st2_def Let_def)
  have f2: "fcontent st2 = Stored (d\<lparr>chats := chats d @ [c1, c2]\<rparr>)"
    by (simp add: st2_def)
  have ids: "c_id c1 = ''chat_'' @ dec t" "c_id c2 = c_id c1"
    "c_userId c1 = userId1" "c_userId c2 = userId2"
    by (simp_all add: c1_def c2_def)
  have nomatch: "\<forall>x \<in> set (chats d). \<not> c_id x = c_id c1"
    using fresh ids(1) by (metis imageI)
  have idx: "findIndex (\<lambda>c. c_id c = c_id c1) (chats d @ [c1, c2]) = Some (length (chats d))"
    using findIndex_append_fresh [of "chats d" "\<lambda>c. c_id c = c_id c1" c1 "[c2]"] nomatch
    by simp
  have upd: "fcontent (snd (updateChat now (c_id c1) up st2))
             = Stored (d\<lparr>chats := chats d @ [mergeChat c1 up now, c2]\<rparr>)"
    using idx
    by (simp add: updateChat_def readDB_Stored [OF f2] writeDB_def writeFile_def Let_def)
  have del: "fcontent (snd (deleteChat (c_id c1) st2)) = Stored (d\<lparr>chats := chats d @ [c2]\<rparr>)"
    using idx
    by (simp add: deleteChat_def readDB_Stored [OF f2] writeDB_def writeFile_def Let_def)
  have "\<exists>c1 c2 st1 st2.
           createChat t tc1 tu1 userId1 ttl1 mdl1 st = (Success 201 c1, st1)
         \<and> createChat t tc2 tu2 userId2 ttl2 mdl2 st1 = (Success 201 c2, st2)
         \<and> c_id c1 = ''chat_'' @ dec t \<and> c_id c2 = c_id c1
         \<and> c_userId c1 = userId1 \<and> c_userId c2 = userId2
         \<and> fcontent st2 = Stored (d\<lparr>chats := chats d @ [c1, c2]\<rparr>)
         \<and> fcontent (snd (updateChat now (c_id c1) up st2))
             = Stored (d\<lparr>chats := chats d @ [mergeChat c1 up now, c2]\<rparr>)
         \<and> fcontent (snd (deleteChat (c_id c1) st2)) = Stored (d\<lparr>chats := chats d @ [c2]\<rparr>)"
    using cr1 cr2 ids f2 upd del by blast
  with general show ?thesis by (rule conjI [rotated])
qed

theorem same_millisecond_chats_share_id_witness:
  "fcontent exampleStore = Stored exampleDoc
   \<and> ''chat_'' @ dec 2000 \<notin> c_id ` set (chats exampleDoc)
   \<and> (\<exists>c1 c2 st1 st2.
           createChat 2000 2000 2000 ''u1'' (js ''a'') None exampleStore = (Success 201 c1, st1)
         \<and> createChat 2000 2000 2001 ''u2'' (js ''b'') None st1 = (Success 201 c2, st2)
         \<and> c_id c1 = ''chat_'' @ dec 2000 \<and> c_id c2 = c_id c1
         \<and> c_userId c1 = ''u1'' \<and> c_userId c2 = ''u2''
         \<and> fcontent st2 = Stored (exampleDoc\<lparr>chats := chats exampleDoc @ [c1, c2]\<rparr>)
         \<and> fcontent (snd (updateChat 3000 (c_id c1) (messagesOnly []) st2))
             = Stored (exampleDoc\<lparr>chats := chats exampleDoc
                         @ [mergeChat c1 (messagesOnly []) 3000, c2]\<rparr>)
         \<and> fcontent (snd (deleteChat (c_id c1) st2))
             = Stored (exampleDoc\<lparr>chats := chats exampleDoc @ [c2]\<rparr>))"
proof -
  have h1: "fcontent exampleStore = Stored exampleDoc"
    by (simp add: exampleStore_def)
  have d: "dec 2000 = ''2000''"
    by (simp add: dec_def digit_def)
  have h2: "''chat_'' @ dec 2000 \<notin> c_id ` set (chats exampleDoc)"
    by (simp add: d exampleDoc_def exampleChat_def)
  have a: "''u1'' \<noteq> []" "js ''a'' \<noteq> []" "''u2'' \<noteq> []" "js ''b'' \<noteq> []"
    by (simp_all add: js_def)
  from same_millisecond_chats_share_id [OF h1 a h2] h1 h2
  show ?thesis by blast
qed

section \<open>Telegram login\<close>

lemma verify_fails_on_mismatch:
  assumes "params_get ''hash'' (searchParams P initData) \<noteq> Some (calculatedHash P initData t)"
  shows "\<not> verifyTelegramWebAppData P initData t"
  using assms by (auto simp add: verifyTelegramWebAppData_def split: option.splits)

lemma calculatedHash_unfold:
  "calculatedHash P initData t =
     hex_of P (hmac_sha256 P (hmac_sha256 P ''WebAppData'' t)
       (join_lines (map (\<lambda>(k, v). k @ ''='' @ v)
          (sort_entries (localeCompare P)
             (filter (\<lambda>p. fst p \<noteq> ''hash'') (searchParams P initData))))))"
  by (simp add: calculatedHash_def dataCheckString_def params_delete_def)

text \<open>
  The sort keeps the entries and, for a comparator that is total and transitive, returns
  them in order.
\<close>

lemma mset_insert_entry: "mset (insert_entry cmp e xs) = add_mset e (mset xs)"
  by (induction xs) simp_all

lemma mset_sort_entries: "mset (sort_entries cmp es) = mset es"
  by (induction es) (simp_all add: sort_entries_def mset_insert_entry)

lemma sorted_insert_entry:
  assumes total: "\<And>a b. cmp a b \<le> 0 \<or> cmp b a \<le> 0"
    and trans: "\<And>a b c. cmp a b \<le> 0 \<Longrightarrow> cmp b c \<le> 0 \<Longrightarrow> cmp a c \<le> 0"
  shows "sorted_wrt (\<lambda>x y. cmp (fst x) (fst y) \<le> 0) xs \<Longrightarrow>
         sorted_wrt (\<lambda>x y. cmp (fst x) (fst y) \<le> 0) (insert_entry cmp e xs)"
proof (induction xs)
  case Nil
  then show ?case by simp
next
  case (Cons x xs)
  show ?case
  proof (cases "cmp (fst e) (fst x) \<le> 0")
    case True
    then have "\<forall>y \<in> set xs. cmp (fst e) (fst y) \<le> 0"
      using Cons.prems trans by auto
    with True Cons.prems show ?thesis by simp
  next
    case False
    then have xe: "cmp (fst x) (fst e) \<le> 0" using total by blast
    have "set (insert_entry cmp e xs) = insert e (set xs)"
      using mset_insert_entry [of cmp e xs] by (metis set_mset_add_mset_insert set_mset_mset)
    with xe Cons.prems have "\<forall>y \<in> set (insert_entry cmp e xs). cmp (fst x) (fst y) \<le> 0"
      by auto
    with False Cons show ?thesis by simp
  qed
qed

lemma sorted_sort_entries:
  assumes total: "\<And>a b. cmp a b \<le> 0 \<or> cmp b a \<le> 0"
    and trans: "\<And>a b c. cmp a b \<le> 0 \<Longrightarrow> cmp b c \<le> 0 \<Longrightarrow> cmp a c \<le> 0"
  shows "sorted_wrt (\<lambda>x y. cmp (fst x) (fst y) \<le> 0) (sort_entries cmp es)"
proof (induction es)
  case Nil
  then show ?case by (simp add: sort_entries_def)
next
  case (Cons e es)
  have "sort_entries cmp (e # es) = insert_entry cmp e (sort_entries cmp es)"
    by (simp add: sort_entries_def)
  with Cons sorted_insert_entry [OF total trans] show ?case by simp
qed

text \<open>
  C7. With a configured (non-empty) bot token, a present \<^verbatim>\<open>initData\<close> whose parameter
  \<^verbatim>\<open>hash\<close> is not the hex HMAC-SHA256, keyed by HMAC-SHA256 of the bot token under the
  key \<^verbatim>\<open>WebAppData\<close>, of the newline-joined \<^verbatim>\<open>key=value\<close> lines of the sorted
  parameters other than \<^verbatim>\<open>hash\<close> is answered 401 before the handler reads the store.
  Without a bot token (unset or empty) the route never answers 401.
\<close>

theorem telegram_auth_checks_hash:
  "(initData \<noteq> [] \<and> botToken = Some t \<and> t \<noteq> []
      \<and> params_get ''hash'' (searchParams P initData)
          \<noteq> Some (hex_of P (hmac_sha256 P (hmac_sha256 P ''WebAppData'' t)
                (join_lines (map (\<lambda>(k, v). k @ ''='' @ v)
                   (sort_entries (localeCompare P)
                      (filter (\<lambda>p. fst p \<noteq> ''hash'') (searchParams P initData))))))) \<longrightarrow>
      telegramAuth P botToken tUser tTok tCreated tIssued rnd32 rnd8 initData st
        = (Failure 401 ''Invalid Telegram data'', st))
   \<and> (botToken' = None \<or> botToken' = Some [] \<longrightarrow>
        status (fst (telegramAuth P botToken' tUser tTok tCreated tIssued rnd32 rnd8 initData' st'))
          \<noteq> 401)"
proof (intro conjI impI)
  assume a: "initData \<noteq> [] \<and> botToken = Some t \<and> t \<noteq> []
      \<and> params_get ''hash'' (searchParams P initData)
          \<noteq> Some (hex_of P (hmac_sha256 P (hmac_sha256 P ''WebAppData'' t)
                (join_lines (map (\<lambda>(k, v). k @ ''='' @ v)
                   (sort_entries (localeCompare P)
                      (filter (\<lambda>p. fst p \<noteq> ''hash'') (searchParams P initData)))))))"
  then have "\<not> verifyTelegramWebAppData P initData t"
    using verify_fails_on_mismatch [of P initData t] by (simp add: calculatedHash_unfold)
  with a show "telegramAuth P botToken tUser tTok tCreated tIssued rnd32 rnd8 initData st
        = (Failure 401 ''Invalid Telegram data'', st)"
    by (simp add: telegramAuth_def)
next
  assume "botToken' = None \<or> botToken' = Some []"
  then have skip: "\<not> (case botToken' of None \<Rightarrow> False
               | Some t \<Rightarrow> t \<noteq> [] \<and> \<not> verifyTelegramWebAppData P initData' t)"
    by auto
  show "status (fst (telegramAuth P botToken' tUser tTok tCreated tIssued rnd32 rnd8 initData' st')) \<noteq> 401"
    using skip
    by (simp add: telegramAuth_def split_beta Let_def split: option.splits)
qed

theorem telegram_auth_checks_hash_witness:
  "params_get ''hash'' (searchParams examplePlatform ''user=%7B%22id%22%3A7%7D&hash=bad'') = Some ''bad''
   \<and> calculatedHash examplePlatform ''user=%7B%22id%22%3A7%7D&hash=bad'' ''TOKEN'' = ''WebAppData/TOKEN/user='' @ exampleUserJson
   \<and> telegramAuth examplePlatform (Some ''TOKEN'') 6000 6001 6002 6003 ''k32'' ''r9''
        ''user=%7B%22id%22%3A7%7D&hash=bad'' exampleAuthStore
       = (Failure 401 ''Invalid Telegram data'', exampleAuthStore)
   \<and> status (fst (telegramAuth examplePlatform None 6000 6001 6002 6003 ''k32'' ''r9''
                    ''user=%7B%22id%22%3A7%7D&hash=bad'' exampleAuthStore)) \<noteq> 401"
proof -
  have g: "params_get ''hash'' (searchParams examplePlatform ''user=%7B%22id%22%3A7%7D&hash=bad'') = Some ''bad''"
    by (simp add: params_get_def examplePlatform_def)
  have c: "calculatedHash examplePlatform ''user=%7B%22id%22%3A7%7D&hash=bad'' ''TOKEN'' = ''WebAppData/TOKEN/user='' @ exampleUserJson"
    by (simp add: calculatedHash_def dataCheckString_def params_delete_def sort_entries_def
        examplePlatform_def exampleUserJson_def)
  have h: "''user=%7B%22id%22%3A7%7D&hash=bad'' \<noteq> [] \<and> Some ''TOKEN'' = Some ''TOKEN'' \<and> ''TOKEN'' \<noteq> []
      \<and> params_get ''hash'' (searchParams examplePlatform ''user=%7B%22id%22%3A7%7D&hash=bad'')
          \<noteq> Some (hex_of examplePlatform (hmac_sha256 examplePlatform
                (hmac_sha256 examplePlatform ''WebAppData'' ''TOKEN'')
                (join_lines (map (\<lambda>(k, v). k @ ''='' @ v)
                   (sort_entries (localeCompare examplePlatform)
                      (filter (\<lambda>p. fst p \<noteq> ''hash'')
                         (searchParams examplePlatform ''user=%7B%22id%22%3A7%7D&hash=bad''))))))) "
    using g c by (simp add: calculatedHash_unfold exampleUserJson_def)
  note inst = telegram_auth_checks_hash
    [of "''user=%7B%22id%22%3A7%7D&hash=bad''" "Some ''TOKEN''" "''TOKEN''" examplePlatform 6000 6001 6002 6003
        "''k32''" "''r9''" exampleAuthStore None "''user=%7B%22id%22%3A7%7D&hash=bad''" exampleAuthStore]
  from inst h have c1: "telegramAuth examplePlatform (Some ''TOKEN'') 6000 6001 6002 6003 ''k32'' ''r9''
        ''user=%7B%22id%22%3A7%7D&hash=bad'' exampleAuthStore
       = (Failure 401 ''Invalid Telegram data'', exampleAuthStore)"
    by blast
  from inst have c2: "status (fst (telegramAuth examplePlatform None 6000 6001 6002 6003 ''k32'' ''r9''
                    ''user=%7B%22id%22%3A7%7D&hash=bad'' exampleAuthStore)) \<noteq> 401"
    by blast
  show ?thesis using g c c1 c2 by blast
qed

section \<open>The session cap\<close>

lemma length_filter_keys:
  assumes "distinct (map f xs)" and "set ks \<subseteq> f ` set xs" and "distinct ks"
  shows "length (filter (\<lambda>x. f x \<in> set ks) xs) = length ks"
proof -
  have dx: "distinct xs" and inj: "inj_on f (set xs)"
    using assms(1) by (simp_all add: distinct_map)
  have "length (filter (\<lambda>x. f x \<in> set ks) xs) = card {x \<in> set xs. f x \<in> set ks}"
    using dx by (simp add: distinct_length_filter Collect_conj_eq Int_commute)
  also have "\<dots> = card (f ` {x \<in> set xs. f x \<in> set ks})"
    by (rule card_image [symmetric]) (rule inj_on_subset [OF inj], auto)
  also have "f ` {x \<in> set xs. f x \<in> set ks} = set ks"
    using assms(2) by auto
  also have "card (set ks) = length ks"
    using assms(3) by (rule distinct_card)
  finally show ?thesis .
qed

lemma filter_keys_set:
  assumes "distinct (map f xs)" and "set ys \<subseteq> set xs"
  shows "set (filter (\<lambda>x. f x \<in> f ` set ys) xs) = set ys"
proof -
  have inj: "inj_on f (set xs)"
    using assms(1) by (simp add: distinct_map)
  show ?thesis
  proof (intro set_eqI iffI)
    fix x assume "x \<in> set (filter (\<lambda>x. f x \<in> f ` set ys) xs)"
    then obtain y where "x \<in> set xs" "y \<in> set ys" "f x = f y" by auto
    with inj assms(2) show "x \<in> set ys" by (metis inj_onD subsetD)
  next
    fix x assume "x \<in> set ys"
    with assms(2) show "x \<in> set (filter (\<lambda>x. f x \<in> f ` set ys) xs)" by auto
  qed
qed

lemma sorted_take_drop:
  assumes "sorted (map f xs)" "x \<in> set (take n xs)" "y \<in> set (drop n xs)"
  shows "f x \<le> f y"
proof -
  have "sorted (map f (take n xs) @ map f (drop n xs))"
    using assms(1) by (simp flip: map_append)
  then show ?thesis
    using assms(2,3) by (auto simp add: sorted_append)
qed

text \<open>The sessions of the user that the cleaning keeps.\<close>

lemma sessionsOfUser_cleanOldSessions:
  "sessionsOfUser uid (cleanOldSessions uid ss) =
     (let us = sessionsOfUser uid ss in
      if length us \<ge> 3 then
        filter (\<lambda>s. token s \<in> token ` set (take 2 (sort_key (\<lambda>s. - s_createdAt s) us))) us
      else us)"
  by (auto simp add: cleanOldSessions_def sessionsOfUser_def Let_def intro: filter_cong)

lemma cleaned_user_sessions:
  assumes dist: "distinct (map token (sessionsOfUser uid ss))"
    and three: "3 \<le> length (sessionsOfUser uid ss)"
  shows "length (sessionsOfUser uid (cleanOldSessions uid ss)) = 2"
    and "set (sessionsOfUser uid (cleanOldSessions uid ss))
           = set (take 2 (sort_key (\<lambda>s. - s_createdAt s) (sessionsOfUser uid ss)))"
    and "\<forall>x \<in> set (sessionsOfUser uid ss). x \<notin> set (sessionsOfUser uid (cleanOldSessions uid ss))
           \<longrightarrow> (\<forall>k \<in> set (sessionsOfUser uid (cleanOldSessions uid ss)).
                  s_createdAt x \<le> s_createdAt k)"
proof -
  let ?us = "sessionsOfUser uid ss"
  let ?sorted = "sort_key (\<lambda>s. - s_createdAt s) ?us"
  let ?keep = "take 2 ?sorted"
  have eq: "sessionsOfUser uid (cleanOldSessions uid ss)
      = filter (\<lambda>s. token s \<in> token ` set ?keep) ?us"
    using three by (simp add: sessionsOfUser_cleanOldSessions Let_def)
  have sub: "set ?keep \<subseteq> set ?us"
    using set_take_subset [of 2 ?sorted] by simp
  have dus: "distinct ?us"
    using dist by (simp add: distinct_map)
  have dk: "distinct (map token ?keep)"
  proof -
    have "distinct (map token ?sorted)"
      using dist by (metis distinct_map distinct_sort set_sort)
    then have "distinct (take 2 (map token ?sorted))" by (rule distinct_take)
    then show ?thesis by (simp add: take_map)
  qed
  have "length (filter (\<lambda>s. token s \<in> set (map token ?keep)) ?us) = length (map token ?keep)"
    using dist sub dk by (intro length_filter_keys) auto
  then show "length (sessionsOfUser uid (cleanOldSessions uid ss)) = 2"
    using three by (simp add: eq)
  show kept: "set (sessionsOfUser uid (cleanOldSessions uid ss)) = set ?keep"
    unfolding eq using dist sub by (rule filter_keys_set)
  have srt: "sorted (map (\<lambda>s. - s_createdAt s) ?sorted)"
    by (rule sorted_sort_key)
  show "\<forall>x \<in> set ?us. x \<notin> set (sessionsOfUser uid (cleanOldSessions uid ss))
           \<longrightarrow> (\<forall>k \<in> set (sessionsOfUser uid (cleanOldSessions uid ss)).
                  s_createdAt x \<le> s_createdAt k)"
  proof (intro ballI impI)
    fix x k
    assume x: "x \<in> set ?us" "x \<notin> set (sessionsOfUser uid (cleanOldSessions uid ss))"
      and k: "k \<in> set (sessionsOfUser uid (cleanOldSessions uid ss))"
    from x kept have "x \<in> set ?sorted" "x \<notin> set ?keep" by simp_all
    then have "x \<in> set (drop 2 ?sorted)"
      by (metis Un_iff append_take_drop_id set_append)
    moreover from k kept have "k \<in> set ?keep" by simp
    ultimately have "- s_createdAt k \<le> - s_createdAt x"
      using sorted_take_drop [OF srt] by blast
    then show "s_createdAt x \<le> s_createdAt k" by simp
  qed
qed


text \<open>
  C3 (as amended). After a successful login of a user whose stored sessions carry
  pairwise different tokens, the user has at most three sessions: the new one, stored
  last, and up to two older ones. With three or more sessions before, exactly three
  remain, and no session that was dropped is newer by \<^verbatim>\<open>createdAt\<close> than an older
  session that was kept, nor (when no stored session is dated after the new one)
  than any session that remains. With fewer than three before, all are kept.
\<close>

theorem login_keeps_at_most_three_sessions:
  assumes ok: "login P tTok tCreated tIssued rnd8 uname pw st = (Success n body, st')"
    and dist: "distinct (map token (sessionsOfUser (u_id (fst body)) (sessions_of (fst (readDB st)))))"
  shows "let uid = u_id (fst body);
             before = sessionsOfUser uid (sessions_of (fst (readDB st)));
             after = sessionsOfUser uid (sessions_of (fst (readDB st')));
             new = newSession (snd body) uid tCreated tIssued
         in length after \<le> 3
          \<and> (3 \<le> length before \<longrightarrow> length after = 3)
          \<and> (length before < 3 \<longrightarrow> after = before @ [new])
          \<and> last after = new
          \<and> set (butlast after) \<subseteq> set before
          \<and> (\<forall>x \<in> set before. x \<notin> set (butlast after) \<longrightarrow>
                (\<forall>k \<in> set (butlast after). s_createdAt x \<le> s_createdAt k))
          \<and> ((\<forall>x \<in> set before. s_createdAt x \<le> tCreated) \<longrightarrow>
                (\<forall>x \<in> set before. x \<notin> set (butlast after) \<longrightarrow>
                   (\<forall>k \<in> set after. s_createdAt x \<le> s_createdAt k)))"
proof -
  define uid where "uid = u_id (fst body)"
  define ss where "ss = sessions_of (fst (readDB st))"
  define new where "new = newSession (snd body) uid tCreated tIssued"
  define kept where "kept = sessionsOfUser uid (cleanOldSessions uid ss)"
  have f: "fcontent st' = Stored ((fst (readDB st))\<lparr>sessions := Some (cleanOldSessions uid ss @ [new])\<rparr>)"
    using login_success_store [OF ok] by (simp add: uid_def ss_def new_def)
  have after: "sessionsOfUser uid (sessions_of (fst (readDB st'))) = kept @ [new]"
    by (simp add: readDB_Stored [OF f] sessions_of_def sessionsOfUser_def kept_def new_def
        newSession_def)
  have dist': "distinct (map token (sessionsOfUser uid ss))"
    using dist by (simp add: uid_def ss_def)
  have small: "kept = sessionsOfUser uid ss" if "length (sessionsOfUser uid ss) < 3"
    using that by (simp add: kept_def sessionsOfUser_cleanOldSessions Let_def)
  have sub: "set kept \<subseteq> set (sessionsOfUser uid ss)"
    using set_cleanOldSessions [of uid ss] by (auto simp add: kept_def sessionsOfUser_def)
  have len: "length kept \<le> 2" "3 \<le> length (sessionsOfUser uid ss) \<Longrightarrow> length kept = 2"
  proof -
    show "3 \<le> length (sessionsOfUser uid ss) \<Longrightarrow> length kept = 2"
      unfolding kept_def using dist' by (rule cleaned_user_sessions(1))
    then show "length kept \<le> 2"
      using small by (cases "3 \<le> length (sessionsOfUser uid ss)") simp_all
  qed
  have older: "\<forall>x \<in> set (sessionsOfUser uid ss). x \<notin> set kept \<longrightarrow>
                (\<forall>k \<in> set kept. s_createdAt x \<le> s_createdAt k)"
  proof (cases "3 \<le> length (sessionsOfUser uid ss)")
    case True
    from cleaned_user_sessions(3) [OF dist' True] show ?thesis
      by (simp add: kept_def)
  next
    case False
    then show ?thesis using small by simp
  qed
  have cnew: "s_createdAt new = tCreated"
    by (simp add: new_def newSession_def)
  have "length (kept @ [new]) \<le> 3"
    using len(1) by simp
  moreover have "3 \<le> length (sessionsOfUser uid ss) \<longrightarrow> length (kept @ [new]) = 3"
    using len(2) by simp
  moreover have "length (sessionsOfUser uid ss) < 3 \<longrightarrow> kept @ [new] = sessionsOfUser uid ss @ [new]"
    using small by simp
  moreover have "last (kept @ [new]) = new" "set (butlast (kept @ [new])) \<subseteq> set (sessionsOfUser uid ss)"
    using sub by simp_all
  moreover have "\<forall>x \<in> set (sessionsOfUser uid ss). x \<notin> set (butlast (kept @ [new])) \<longrightarrow>
                (\<forall>k \<in> set (butlast (kept @ [new])). s_createdAt x \<le> s_createdAt k)"
    using older by simp
  moreover have "(\<forall>x \<in> set (sessionsOfUser uid ss). s_createdAt x \<le> tCreated) \<longrightarrow>
                (\<forall>x \<in> set (sessionsOfUser uid ss). x \<notin> set (butlast (kept @ [new])) \<longrightarrow>
                   (\<forall>k \<in> set (kept @ [new]). s_createdAt x \<le> s_createdAt k))"
    using older cnew by auto
  ultimately show ?thesis
    unfolding Let_def after uid_def [symmetric] ss_def [symmetric] new_def [symmetric]
    by blast
qed


theorem login_keeps_at_most_three_sessions_witness:
  "distinct (map token (sessionsOfUser ''1000'' (sessions_of (fst (readDB exampleThreeStore)))))
   \<and> length (sessionsOfUser ''1000'' (sessions_of (fst (readDB exampleThreeStore)))) = 3
   \<and> length (sessionsOfUser ''1000'' (sessions_of (fst (readDB (snd
         (login examplePlatform 5000 5001 5002 ''r8'' ''alice'' ''secret'' exampleThreeStore)))))) = 3
   \<and> sessionsOfUser ''1000'' (sessions_of (fst (readDB (snd
         (login examplePlatform 5000 5001 5002 ''r8'' ''alice'' ''secret'' exampleThreeStore)))))
       = [exampleSessionB, exampleSessionC,
          newSession ''sess_5000_r8_md5:1000'' ''1000'' 5001 5002]"
proof -
  let ?L = "login examplePlatform 5000 5001 5002 ''r8'' ''alice'' ''secret'' exampleThreeStore"
  have r: "readDB exampleThreeStore
      = (exampleAuthDoc\<lparr>sessions := Some [exampleSession, exampleSessionB, exampleSessionC]\<rparr>,
         exampleThreeStore)"
    by (simp add: readDB_Stored exampleThreeStore_def)
  have d1: "dec 5000 = ''5000''"
    by (simp add: dec_def digit_def)
  have l: "fst ?L = Success 200 (userResponse exampleAlice, ''sess_5000_r8_md5:1000'')"
    by (simp add: login_def r exampleAuthDoc_def exampleAlice_def exampleTelegramUser_def
        examplePlatform_def hashPassword_def generateSessionToken_def d1 Let_def)
  then have le: "?L = (Success 200 (userResponse exampleAlice, ''sess_5000_r8_md5:1000''), snd ?L)"
    by (simp add: prod_eq_iff)
  have uid: "u_id (fst (userResponse exampleAlice, ''sess_5000_r8_md5:1000'')) = ''1000''"
    by (simp add: userResponse_def exampleAlice_def)
  have before: "sessionsOfUser ''1000'' (sessions_of (fst (readDB exampleThreeStore)))
      = [exampleSession, exampleSessionB, exampleSessionC]"
    by (simp add: r sessions_of_def sessionsOfUser_def exampleSession_def exampleSessionB_def
        exampleSessionC_def)
  have dist: "distinct (map token (sessionsOfUser (u_id (fst (userResponse exampleAlice,
      ''sess_5000_r8_md5:1000''))) (sessions_of (fst (readDB exampleThreeStore)))))"
    unfolding uid before
    by (simp add: exampleSession_def exampleSessionB_def exampleSessionC_def)
  from login_keeps_at_most_three_sessions [OF le dist]
  have three: "length (sessionsOfUser ''1000'' (sessions_of (fst (readDB (snd ?L))))) = 3"
    unfolding Let_def uid before by simp
  have keep: "cleanOldSessions ''1000'' [exampleSession, exampleSessionB, exampleSessionC]
      = [exampleSessionB, exampleSessionC]"
    by (simp add: cleanOldSessions_def sessionsOfUser_def Let_def exampleSession_def
        exampleSessionB_def exampleSessionC_def)
  from login_success_store [OF le]
  have "fcontent (snd ?L) = Stored ((fst (readDB exampleThreeStore))\<lparr>sessions :=
           Some ([exampleSessionB, exampleSessionC] @
                 [newSession ''sess_5000_r8_md5:1000'' ''1000'' 5001 5002])\<rparr>)"
    unfolding uid by (simp add: r sessions_of_def keep)
  then have after: "sessionsOfUser ''1000'' (sessions_of (fst (readDB (snd ?L))))
       = [exampleSessionB, exampleSessionC,
          newSession ''sess_5000_r8_md5:1000'' ''1000'' 5001 5002]"
    by (simp add: readDB_Stored sessions_of_def sessionsOfUser_def newSession_def
        exampleSessionB_def exampleSessionC_def)
  show ?thesis
    using dist three after unfolding uid before by simp
qed

text \<open>
  C3 as stated fails: when three stored sessions of the user carry the same token, all
  three are kept and the login leaves the user with four sessions.
\<close>

theorem login_duplicate_tokens_counterexample:
  "length (sessionsOfUser ''1000'' (sessions_of (fst (readDB (snd
      (login examplePlatform 5000 5001 5002 ''r8'' ''alice'' ''secret'' exampleDuplicateStore))))))
     = 4"
proof -
  let ?L = "login examplePlatform 5000 5001 5002 ''r8'' ''alice'' ''secret'' exampleDuplicateStore"
  let ?ss = "[exampleSession, exampleSession\<lparr>s_createdAt := 3000\<rparr>,
              exampleSession\<lparr>s_createdAt := 4000\<rparr>]"
  have r: "readDB exampleDuplicateStore
      = (exampleAuthDoc\<lparr>sessions := Some ?ss\<rparr>, exampleDuplicateStore)"
    by (simp add: readDB_Stored exampleDuplicateStore_def)
  have d1: "dec 5000 = ''5000''"
    by (simp add: dec_def digit_def)
  have l: "fst ?L = Success 200 (userResponse exampleAlice, ''sess_5000_r8_md5:1000'')"
    by (simp add: login_def r exampleAuthDoc_def exampleAlice_def exampleTelegramUser_def
        examplePlatform_def hashPassword_def generateSessionToken_def d1 Let_def)
  then have le: "?L = (Success 200 (userResponse exampleAlice, ''sess_5000_r8_md5:1000''), snd ?L)"
    by (simp add: prod_eq_iff)
  have uid: "u_id (fst (userResponse exampleAlice, ''sess_5000_r8_md5:1000'')) = ''1000''"
    by (simp add: userResponse_def exampleAlice_def)
  have keep: "cleanOldSessions ''1000'' ?ss = ?ss"
    by (simp add: cleanOldSessions_def sessionsOfUser_def Let_def exampleSession_def)
  from login_success_store [OF le]
  have "fcontent (snd ?L) = Stored ((fst (readDB exampleDuplicateStore))\<lparr>sessions :=
           Some (?ss @ [newSession ''sess_5000_r8_md5:1000'' ''1000'' 5001 5002])\<rparr>)"
    unfolding uid by (simp add: r sessions_of_def keep)
  then show ?thesis
    by (simp add: readDB_Stored sessions_of_def sessionsOfUser_def newSession_def
        exampleSession_def)
qed

section \<open>Context of an image prompt\<close>

lemma isGenerationRequest_content:
  "isGenerationRequest m \<Longrightarrow> m_content m \<noteq> None"
  by (cases "m_content m") (simp_all add: isGenerationRequest_def)

text \<open>
  The route reads the key \<^verbatim>\<open>content\<close> of the stored messages only: in a chat whose
  messages have none, whatever their \<^verbatim>\<open>text\<close>, nothing is found and the prompt goes to
  the provider unchanged.
\<close>

lemma contextualPrompt_without_content:
  assumes "fcontent st = Stored d"
    and "\<forall>c \<in> set (chats d). \<forall>m \<in> set (messages c). m_content m = None"
  shows "contextualPrompt P prompt userId chatId st = (prompt, st)"
proof -
  have none: "find isGenerationRequest (rev (drop n (messages c))) = None"
    if "c \<in> set (chats d)" for c n
  proof -
    have "\<forall>m \<in> set (rev (drop n (messages c))). \<not> isGenerationRequest m"
      using assms(2) that isGenerationRequest_content
      by (metis in_set_dropD set_rev)
    then show ?thesis by (simp add: find_None_iff)
  qed
  show ?thesis
  proof (cases "find (\<lambda>c. c_id c = chatId \<and> c_userId c = userId) (chats d)")
    case None
    then show ?thesis
      using assms(1) by (simp add: contextualPrompt_def readDB_Stored)
  next
    case (Some c)
    then have "c \<in> set (chats d)"
      by (auto simp add: find_Some_iff)
    from none [OF this] Some show ?thesis
      using assms(1) by (simp add: contextualPrompt_def readDB_Stored Let_def)
  qed
qed

text \<open>
  When the most recent of the last ten messages with a generation keyword in its
  \<^verbatim>\<open>content\<close> is \<^verbatim>\<open>m\<close> and the prompt matches the modification pattern, the prompt
  for the provider is that content, a comma and a space, and the prompt.
\<close>

lemma contextualPrompt_with_content:
  assumes "fcontent st = Stored d" "chatId \<noteq> []" "userId \<noteq> []"
    and "find (\<lambda>c. c_id c = chatId \<and> c_userId c = userId) (chats d) = Some c"
    and "find isGenerationRequest (rev (drop (length (messages c) - 10) (messages c))) = Some m"
    and "test P False modificationPattern (toLowerCase P prompt)"
    and "m_content m = Some previous"
  shows "contextualPrompt P prompt userId chatId st = (previous @ js '', '' @ prompt, st)"
proof -
  have "messages c \<noteq> []"
    using assms(5) by auto
  then show ?thesis
    using assms by (simp add: contextualPrompt_def readDB_Stored Let_def)
qed

text \<open>
  C1 at the input of the spec. The chat holds the user message \<^verbatim>\<open>narisuj kota\<close> as the
  client stores it, under \<^verbatim>\<open>text\<close>; the new prompt is \<^verbatim>\<open>dobav' shlyapu\<close>. The prompt
  sent to the provider is the new prompt alone, and the answer reports that no context
  was used. Had the message carried the words under \<^verbatim>\<open>content\<close>, the prompt sent
  would have been \<^verbatim>\<open>narisuj kota, dobav' shlyapu\<close>.
\<close>

theorem image_prompt_ignores_message_text:
  "fst (contextualPrompt examplePlatform (ru_dobav @ js '' '' @ ru_shlyapu) ''u1'' ''chat_1000'' exampleCatStore)
     = ru_dobav @ js '' '' @ ru_shlyapu
   \<and> snd (fst (generateImage examplePlatform True 200 (ru_dobav @ js '' '' @ ru_shlyapu) ''u1'' ''chat_1000'' None
                  exampleCatStore))
     = [HuggingFaceCall (ru_dobav @ js '' '' @ ru_shlyapu)]
   \<and> fst (contextualPrompt examplePlatform (ru_dobav @ js '' '' @ ru_shlyapu) ''u1'' ''chat_1000''
           exampleCatContentStore)
     = ru_narisuj @ js '' '' @ ru_kota @ js '', '' @ ru_dobav @ js '' '' @ ru_shlyapu"
proof -
  let ?p = "ru_dobav @ js '' '' @ ru_shlyapu"
  have f: "fcontent exampleCatStore = Stored (defaultDB\<lparr>chats :=
        [exampleChat\<lparr>messages := [userMessage (ru_narisuj @ js '' '' @ ru_kota) 1500]\<rparr>]\<rparr>)"
    by (simp add: exampleCatStore_def)
  have a: "contextualPrompt examplePlatform ?p ''u1'' ''chat_1000'' exampleCatStore = (?p, exampleCatStore)"
    by (rule contextualPrompt_without_content [OF f]) (simp add: userMessage_def)
  have pne: "?p \<noteq> []"
    by (simp add: ru_dobav_def)
  have b: "snd (fst (generateImage examplePlatform True 200 ?p ''u1'' ''chat_1000'' None exampleCatStore))
     = [HuggingFaceCall ?p]"
    using pne by (simp add: generateImage_def a Let_def)
  let ?m = "(userMessage [] 1500)\<lparr>m_content := Some (ru_narisuj @ js '' '' @ ru_kota)\<rparr>"
  have g: "fcontent exampleCatContentStore = Stored (defaultDB\<lparr>chats :=
        [exampleChat\<lparr>messages := [?m]\<rparr>]\<rparr>)"
    by (simp add: exampleCatContentStore_def)
  have gen: "isGenerationRequest ?m"
    by (simp add: isGenerationRequest_def userMessage_def ru_narisuj_def ru_kota_def
        ru_sgenerir_def ru_sozdaj_def js_def)
  have low: "toLowerCase examplePlatform ?p = ?p"
    by (simp add: examplePlatform_def lower_unit_def ru_dobav_def ru_shlyapu_def js_def)
  have "lit_at examplePlatform False ?p 0 ru_dobav"
    by (simp add: lit_at_def same_unit_def list_all2_same)
  then have "match_ends examplePlatform False ?p modificationPattern 0 \<noteq> []"
    by (simp add: modificationPattern_def)
  then have modif: "test examplePlatform False modificationPattern (toLowerCase examplePlatform ?p)"
    unfolding low test_def list_ex_iff by (intro bexI [of _ 0]) simp_all
  have c: "contextualPrompt examplePlatform ?p ''u1'' ''chat_1000'' exampleCatContentStore
      = ((ru_narisuj @ js '' '' @ ru_kota) @ js '', '' @ ?p, exampleCatContentStore)"
    by (rule contextualPrompt_with_content [OF g _ _ _ _ modif, where c = "exampleChat\<lparr>messages := [?m]\<rparr>" and m = ?m])
      (simp_all add: gen exampleChat_def defaultDB_def)
  show ?thesis
    using a b c by simp
qed

section \<open>Request classification\<close>

lemma match_ends_OneOf:
  "e \<in> set (match_ends P ic s (OneOf ws) i)
     \<longleftrightarrow> (\<exists>w \<in> set ws. lit_at P ic s i w \<and> e = i + length w)"
  by auto

lemma match_ends_Seq:
  "e \<in> set (match_ends P ic s (Seq a b) i)
     \<longleftrightarrow> (\<exists>j \<in> set (match_ends P ic s a i). e \<in> set (match_ends P ic s b j))"
  by auto

lemma match_ends_WordB:
  "e \<in> set (match_ends P ic s WordB i) \<longleftrightarrow> word_boundary s i \<and> e = i"
  by auto

lemma lit_at_bound:
  assumes "lit_at P ic s i w" "w \<noteq> []"
  shows "i < length s"
proof -
  from assms(1) have "length w = length (take (length w) (drop i s))"
    unfolding lit_at_def by (rule list_all2_lengthD)
  then have "length w \<le> length s - i"
    by simp
  moreover from assms(2) have "0 < length w"
    by simp
  ultimately show ?thesis by linarith
qed

lemma lit_at_mentions:
  assumes "lit_at P True s i w" "w \<noteq> []"
  shows "mentions P s w"
proof -
  from lit_at_bound [OF assms] have "i \<in> set [0 ..< Suc (length s)]" by simp
  with assms(1) show ?thesis
    unfolding mentions_def list_ex_iff by blast
qed

lemma lit_at_prefix:
  assumes "lit_at P ic s i (u @ v)"
  shows "lit_at P ic s i u"
proof -
  from assms have "list_all2 (same_unit P ic) (take (length u) (u @ v))
      (take (length u) (take (length (u @ v)) (drop i s)))"
    unfolding lit_at_def by (rule list_all2_takeI)
  then show ?thesis
    by (simp add: lit_at_def min_def)
qed

lemma test_match:
  "test P ic r s \<longleftrightarrow> (\<exists>i \<le> length s. \<exists>e. e \<in> set (match_ends P ic s r i))"
proof -
  have "match_ends P ic s r i \<noteq> [] \<longleftrightarrow> (\<exists>e. e \<in> set (match_ends P ic s r i))" for i
    by (cases "match_ends P ic s r i") auto
  then have "test P ic r s
      \<longleftrightarrow> (\<exists>i \<in> set [0 ..< Suc (length s)]. \<exists>e. e \<in> set (match_ends P ic s r i))"
    by (simp add: test_def list_ex_iff)
  also have "\<dots> \<longleftrightarrow> (\<exists>i \<le> length s. \<exists>e. e \<in> set (match_ends P ic s r i))"
    by (metis atLeastLessThan_iff less_Suc_eq_le set_upt zero_le)
  finally show ?thesis .
qed

text \<open>A match of one of the four image patterns shows a noun or one of the drawing verbs.\<close>

lemma image_pattern_words:
  assumes "pattern \<in> set imagePatterns" and "test P True pattern s"
  shows "(\<exists>w \<in> set imageNouns. mentions P s w)
         \<or> mentions P s (js ''draw'') \<or> mentions P s ru_narisuj"
proof -
  have nouns_ne: "\<forall>w \<in> set imageNouns. w \<noteq> []"
    by (simp add: imageNouns_def ru_kartinku_def ru_izobrazhenie_def ru_risunok_def ru_foto_def
        ru_art_def js_def)
  have noun: "\<exists>w \<in> set imageNouns. mentions P s w"
    if "w \<in> set imageNouns" "lit_at P True s j w" for w j
    using that nouns_ne lit_at_mentions by blast
  from assms(2) obtain i e where e: "e \<in> set (match_ends P True s pattern i)"
    by (auto simp add: test_match)
  from assms(1) consider
    (ru) "pattern = Seq WordB (Seq (OneOf [ru_sgeneriruj, ru_sgenerirujte, ru_narisuj,
            ru_narisujte, ru_sozdaj, ru_sozdajte, ru_sdelaj, ru_sdelajte])
            (Seq Spaces (OneOf [ru_kartinku, ru_izobrazhenie, ru_risunok, ru_foto, ru_art])))"
  | (draw) "pattern = Seq WordB (Seq (OneOf [ru_narisuj, ru_narisujte, js ''draw'']) WordB)"
  | (en) "pattern = Seq WordB (Seq (OneOf [js ''generate'', js ''create'', js ''make'',
            js ''draw'']) (Seq Spaces (OneOf [js ''image'', js ''picture'', js ''photo'',
            js ''art'', js ''illustration''])))"
  | (word) "pattern = Seq WordB (Seq (OneOf [ru_kartinku, ru_izobrazhenie]) WordB)"
    by (auto simp add: imagePatterns_def)
  then show ?thesis
  proof cases
    case ru
    with e obtain j w where
      "w \<in> set [ru_kartinku, ru_izobrazhenie, ru_risunok, ru_foto, ru_art]" "lit_at P True s j w"
      unfolding ru match_ends_Seq Bex_def match_ends_OneOf by blast
    then show ?thesis
      using noun [of w j] by (auto simp add: imageNouns_def)
  next
    case draw
    with e obtain j w where w: "w \<in> set [ru_narisuj, ru_narisujte, js ''draw'']"
      "lit_at P True s j w"
      unfolding draw match_ends_Seq Bex_def match_ends_OneOf by blast
    have ne: "ru_narisuj \<noteq> []" "js ''draw'' \<noteq> []"
      by (simp_all add: ru_narisuj_def js_def)
    have te: "ru_narisujte = ru_narisuj @ [0x442, 0x435]"
      by (simp add: ru_narisujte_def ru_narisuj_def)
    from w consider "w = ru_narisuj" | "w = ru_narisujte" | "w = js ''draw''"
      by auto
    then show ?thesis
    proof cases
      case 1
      with w(2) ne(1) show ?thesis using lit_at_mentions by blast
    next
      case 2
      with w(2) have "lit_at P True s j ru_narisuj"
        unfolding te by (simp only: lit_at_prefix)
      with ne(1) show ?thesis using lit_at_mentions by blast
    next
      case 3
      with w(2) ne(2) show ?thesis using lit_at_mentions by blast
    qed
  next
    case en
    with e obtain j w where
      "w \<in> set [js ''image'', js ''picture'', js ''photo'', js ''art'', js ''illustration'']"
      "lit_at P True s j w"
      unfolding en match_ends_Seq Bex_def match_ends_OneOf by blast
    then show ?thesis
      using noun [of w j] by (auto simp add: imageNouns_def)
  next
    case word
    with e obtain j w where
      "w \<in> set [ru_kartinku, ru_izobrazhenie]" "lit_at P True s j w"
      unfolding word match_ends_Seq Bex_def match_ends_OneOf by blast
    then show ?thesis
      using noun [of w j] by (auto simp add: imageNouns_def)
  qed
qed

text \<open>A word is found where it stands; a boundary is found at the edge of a word.\<close>

lemma lit_at_here: "lit_at P ic (pre @ w @ post) (length pre) w"
  by (simp add: lit_at_def same_unit_def list_all2_refl)

lemma word_boundary_before:
  assumes "pre = [] \<or> \<not> is_word (last pre)" and "w \<noteq> []" and "is_word (hd w)"
  shows "word_boundary (pre @ w @ post) (length pre)"
proof -
  have here: "(pre @ w @ post) ! length pre = hd w"
    using assms(2) by (simp add: nth_append hd_conv_nth)
  have before: "(pre @ w @ post) ! (length pre - 1) = last pre" if "pre \<noteq> []"
    using that by (simp add: nth_append last_conv_nth)
  have lt: "length pre < length (pre @ w @ post)"
    using assms(2) by simp
  show ?thesis
  proof (cases "pre = []")
    case True
    then show ?thesis
      using here assms(3) lt by (simp add: word_boundary_def)
  next
    case False
    with assms(1) have "\<not> is_word (last pre)" by simp
    with before [OF False] here assms(3) lt show ?thesis
      by (simp add: word_boundary_def)
  qed
qed

lemma word_boundary_after:
  assumes "w \<noteq> []" and "is_word (last w)" and "post = [] \<or> \<not> is_word (hd post)"
  shows "word_boundary (pre @ w @ post) (length pre + length w)"
proof -
  have before: "(pre @ w @ post) ! (length pre + length w - 1) = last w"
  proof -
    have "(pre @ w @ post) ! (length pre + (length w - 1)) = (w @ post) ! (length w - 1)"
      by (simp only: append_assoc nth_append_length_plus)
    also have "\<dots> = last w"
      using assms(1) by (simp add: nth_append last_conv_nth)
    finally show ?thesis
      using assms(1) by (simp add: Suc_leI)
  qed
  have here: "(pre @ w @ post) ! (length pre + length w) = hd post" if "post \<noteq> []"
  proof -
    have "(pre @ w @ post) ! (length pre + length w) = ((pre @ w) @ post) ! (length (pre @ w) + 0)"
      by simp
    also have "\<dots> = post ! 0"
      by (simp only: nth_append_length_plus)
    finally show ?thesis
      using that by (simp add: hd_conv_nth)
  qed
  have pos: "0 < length pre + length w"
    using assms(1) by simp
  show ?thesis
  proof (cases "post = []")
    case True
    then show ?thesis
      using before assms(2) pos by (simp add: word_boundary_def)
  next
    case False
    with assms(3) have "\<not> is_word (hd post)" by simp
    with here [OF False] before assms(2) pos show ?thesis
      by (simp add: word_boundary_def)
  qed
qed

lemma spaces_here:
  assumes "ws \<noteq> []" and "list_all is_space ws"
  shows "length pre + length ws \<in> set (match_ends P ic (pre @ ws @ rest) Spaces (length pre))"
proof -
  have "takeWhile is_space (ws @ rest) = ws @ takeWhile is_space rest"
    using assms(2) by (simp add: list_all_iff takeWhile_append2)
  then have "length ws \<le> length (takeWhile is_space (drop (length pre) (pre @ ws @ rest)))"
    by simp
  moreover have "1 \<le> length ws"
    using assms(1) by (simp add: Suc_leI)
  ultimately have "1 \<le> length ws \<and> length ws
      < Suc (length (takeWhile is_space (drop (length pre) (pre @ ws @ rest))))"
    by linarith
  then have "length ws \<in> set [1 ..< Suc (length (takeWhile is_space
      (drop (length pre) (pre @ ws @ rest))))]"
    by (simp only: set_upt atLeastLessThan_iff)
  then show ?thesis
    unfolding match_ends.simps set_map by (rule imageI)
qed

text \<open>
  An English generation verb at the start of a word, whitespace and an English image
  noun: the third pattern matches.
\<close>

lemma english_phrase_matches:
  assumes pre: "pre = [] \<or> \<not> is_word (last pre)"
    and verb: "verb \<in> set [js ''generate'', js ''create'', js ''make'', js ''draw'']"
    and ws: "ws \<noteq> []" "list_all is_space ws"
    and noun: "noun \<in> set [js ''image'', js ''picture'', js ''photo'', js ''art'',
                             js ''illustration'']"
  shows "list_ex (\<lambda>pattern. test P True pattern (pre @ verb @ ws @ noun @ post)) imagePatterns"
proof -
  let ?s = "pre @ verb @ ws @ noun @ post"
  let ?verbs = "OneOf [js ''generate'', js ''create'', js ''make'', js ''draw'']"
  let ?nouns = "OneOf [js ''image'', js ''picture'', js ''photo'', js ''art'',
                       js ''illustration'']"
  let ?r = "Seq WordB (Seq ?verbs (Seq Spaces ?nouns))"
  from verb have v: "verb \<noteq> []" "is_word (hd verb)"
    by (auto simp add: js_def is_word_def)
  have b: "length pre \<in> set (match_ends P True ?s WordB (length pre))"
    using word_boundary_before [OF pre v, of "ws @ noun @ post"]
    by (simp add: match_ends_WordB)
  have l1: "length pre + length verb \<in> set (match_ends P True ?s ?verbs (length pre))"
    using lit_at_here [of P True pre verb "ws @ noun @ post"] verb
    unfolding match_ends_OneOf by blast
  have l2: "length pre + length verb + length ws
      \<in> set (match_ends P True ?s Spaces (length pre + length verb))"
    using spaces_here [OF ws, of "pre @ verb" P True "noun @ post"] by simp
  have l3: "length pre + length verb + length ws + length noun
      \<in> set (match_ends P True ?s ?nouns (length pre + length verb + length ws))"
    using lit_at_here [of P True "pre @ verb @ ws" noun post] noun
    unfolding match_ends_OneOf by (simp add: add.assoc) blast
  from l2 l3 have "length pre + length verb + length ws + length noun
      \<in> set (match_ends P True ?s (Seq Spaces ?nouns) (length pre + length verb))"
    unfolding match_ends_Seq by blast
  with l1 have "length pre + length verb + length ws + length noun
      \<in> set (match_ends P True ?s (Seq ?verbs (Seq Spaces ?nouns)) (length pre))"
    unfolding match_ends_Seq by blast
  with b have "length pre + length verb + length ws + length noun
      \<in> set (match_ends P True ?s ?r (length pre))"
    unfolding match_ends_Seq by blast
  moreover have "length pre \<le> length ?s"
    by simp
  ultimately have "test P True ?r ?s"
    unfolding test_match by blast
  moreover have "?r \<in> set imagePatterns"
    by (simp add: imagePatterns_def)
  ultimately show ?thesis
    unfolding list_ex_iff by blast
qed

text \<open>The word \<^verbatim>\<open>draw\<close> on its own: the second pattern matches.\<close>

lemma draw_word_matches:
  assumes pre: "pre = [] \<or> \<not> is_word (last pre)"
    and post: "post = [] \<or> \<not> is_word (hd post)"
  shows "list_ex (\<lambda>pattern. test P True pattern (pre @ js ''draw'' @ post)) imagePatterns"
proof -
  let ?w = "js ''draw''"
  let ?s = "pre @ ?w @ post"
  let ?words = "OneOf [ru_narisuj, ru_narisujte, ?w]"
  let ?r = "Seq WordB (Seq ?words WordB)"
  have w: "?w \<noteq> []" "is_word (hd ?w)" "is_word (last ?w)"
    by (simp_all add: js_def is_word_def)
  have b: "length pre \<in> set (match_ends P True ?s WordB (length pre))"
    using word_boundary_before [OF pre w(1,2), of post]
    by (simp add: match_ends_WordB)
  have l1: "length pre + length ?w \<in> set (match_ends P True ?s ?words (length pre))"
    using lit_at_here [of P True pre ?w post]
    unfolding match_ends_OneOf by simp
  have l2: "length pre + length ?w \<in> set (match_ends P True ?s WordB (length pre + length ?w))"
    using word_boundary_after [OF w(1,3) post, of pre]
    by (simp add: match_ends_WordB)
  from l1 l2 have "length pre + length ?w
      \<in> set (match_ends P True ?s (Seq ?words WordB) (length pre))"
    unfolding match_ends_Seq by blast
  with b have "length pre + length ?w \<in> set (match_ends P True ?s ?r (length pre))"
    unfolding match_ends_Seq by blast
  moreover have "length pre \<le> length ?s"
    by simp
  ultimately have "test P True ?r ?s"
    unfolding test_match by blast
  moreover have "?r \<in> set imagePatterns"
    by (simp add: imagePatterns_def)
  ultimately show ?thesis
    unfolding list_ex_iff by blast
qed

text \<open>
  C9 (as amended). The classification answers \<^verbatim>\<open>video\<close> exactly when the lowered
  message contains one of the six video phrases, whatever else it contains; otherwise
  \<^verbatim>\<open>image\<close> exactly when one of the four image patterns matches the lowered message,
  and \<^verbatim>\<open>text\<close> when none does. A message classified as \<^verbatim>\<open>image\<close> contains no video
  phrase and mentions an image noun or one of the verbs \<^verbatim>\<open>draw\<close> and \<^verbatim>\<open>narisuj\<close> (in
  Cyrillic). A message without a video phrase is classified as \<^verbatim>\<open>image\<close> when, lowered,
  it has one of \<^verbatim>\<open>generate\<close>, \<^verbatim>\<open>create\<close>, \<^verbatim>\<open>make\<close>, \<^verbatim>\<open>draw\<close> at the start of a
  word, then whitespace, then one of \<^verbatim>\<open>image\<close>, \<^verbatim>\<open>picture\<close>, \<^verbatim>\<open>photo\<close>, \<^verbatim>\<open>art\<close>,
  \<^verbatim>\<open>illustration\<close>, and when it has the word \<^verbatim>\<open>draw\<close> on its own.
\<close>

theorem request_type_classification:
  "(detectRequestType P message = VideoRequest
      \<longleftrightarrow> list_ex (js_includes (toLowerCase P message)) videoKeywords)
   \<and> (detectRequestType P message = ImageRequest
      \<longleftrightarrow> \<not> list_ex (js_includes (toLowerCase P message)) videoKeywords
         \<and> list_ex (\<lambda>pattern. test P True pattern (toLowerCase P message)) imagePatterns)
   \<and> (detectRequestType P message = TextRequest
        \<longleftrightarrow> \<not> list_ex (js_includes (toLowerCase P message)) videoKeywords
           \<and> \<not> list_ex (\<lambda>pattern. test P True pattern (toLowerCase P message)) imagePatterns)
   \<and> (detectRequestType P message = ImageRequest \<longrightarrow>
        \<not> list_ex (js_includes (toLowerCase P message)) videoKeywords
        \<and> (list_ex (mentions P (toLowerCase P message)) imageNouns
           \<or> mentions P (toLowerCase P message) (js ''draw'')
           \<or> mentions P (toLowerCase P message) ru_narisuj))
   \<and> (\<not> list_ex (js_includes (toLowerCase P message)) videoKeywords
        \<and> toLowerCase P message = pre @ verb @ ws @ noun @ post
        \<and> (pre = [] \<or> \<not> is_word (last pre))
        \<and> verb \<in> set [js ''generate'', js ''create'', js ''make'', js ''draw'']
        \<and> ws \<noteq> [] \<and> list_all is_space ws
        \<and> noun \<in> set [js ''image'', js ''picture'', js ''photo'', js ''art'',
                         js ''illustration''] \<longrightarrow>
        detectRequestType P message = ImageRequest)
   \<and> (\<not> list_ex (js_includes (toLowerCase P message)) videoKeywords
        \<and> toLowerCase P message = before @ js ''draw'' @ after
        \<and> (before = [] \<or> \<not> is_word (last before))
        \<and> (after = [] \<or> \<not> is_word (hd after)) \<longrightarrow>
        detectRequestType P message = ImageRequest)"
proof (intro conjI impI)
  show "detectRequestType P message = VideoRequest
      \<longleftrightarrow> list_ex (js_includes (toLowerCase P message)) videoKeywords"
    by (simp add: detectRequestType_def Let_def)
  show "detectRequestType P message = ImageRequest
      \<longleftrightarrow> \<not> list_ex (js_includes (toLowerCase P message)) videoKeywords
         \<and> list_ex (\<lambda>pattern. test P True pattern (toLowerCase P message)) imagePatterns"
    by (simp add: detectRequestType_def Let_def)
  show "detectRequestType P message = TextRequest
        \<longleftrightarrow> \<not> list_ex (js_includes (toLowerCase P message)) videoKeywords
           \<and> \<not> list_ex (\<lambda>pattern. test P True pattern (toLowerCase P message)) imagePatterns"
    by (simp add: detectRequestType_def Let_def)
next
  assume img: "detectRequestType P message = ImageRequest"
  then show "\<not> list_ex (js_includes (toLowerCase P message)) videoKeywords"
    by (simp add: detectRequestType_def Let_def split: if_splits)
  from img have "list_ex (\<lambda>pattern. test P True pattern (toLowerCase P message)) imagePatterns"
    by (simp add: detectRequestType_def Let_def split: if_splits)
  then obtain pattern where
    "pattern \<in> set imagePatterns" "test P True pattern (toLowerCase P message)"
    by (auto simp add: list_ex_iff)
  from image_pattern_words [OF this]
  show "list_ex (mentions P (toLowerCase P message)) imageNouns
           \<or> mentions P (toLowerCase P message) (js ''draw'')
           \<or> mentions P (toLowerCase P message) ru_narisuj"
    by (simp add: list_ex_iff)
next
  assume a: "\<not> list_ex (js_includes (toLowerCase P message)) videoKeywords
        \<and> toLowerCase P message = pre @ verb @ ws @ noun @ post
        \<and> (pre = [] \<or> \<not> is_word (last pre))
        \<and> verb \<in> set [js ''generate'', js ''create'', js ''make'', js ''draw'']
        \<and> ws \<noteq> [] \<and> list_all is_space ws
        \<and> noun \<in> set [js ''image'', js ''picture'', js ''photo'', js ''art'',
                         js ''illustration'']"
  then have low: "toLowerCase P message = pre @ verb @ ws @ noun @ post"
    and nv: "\<not> list_ex (js_includes (toLowerCase P message)) videoKeywords"
    and pre: "pre = [] \<or> \<not> is_word (last pre)"
    and verb: "verb \<in> set [js ''generate'', js ''create'', js ''make'', js ''draw'']"
    and ws: "ws \<noteq> []" "list_all is_space ws"
    and noun: "noun \<in> set [js ''image'', js ''picture'', js ''photo'', js ''art'',
                             js ''illustration'']"
    by blast+
  have "list_ex (\<lambda>pattern. test P True pattern (toLowerCase P message)) imagePatterns"
    unfolding low by (rule english_phrase_matches [OF pre verb ws noun])
  with nv show "detectRequestType P message = ImageRequest"
    by (simp add: detectRequestType_def Let_def)
next
  assume a: "\<not> list_ex (js_includes (toLowerCase P message)) videoKeywords
        \<and> toLowerCase P message = before @ js ''draw'' @ after
        \<and> (before = [] \<or> \<not> is_word (last before))
        \<and> (after = [] \<or> \<not> is_word (hd after))"
  then have low: "toLowerCase P message = before @ js ''draw'' @ after"
    and nv: "\<not> list_ex (js_includes (toLowerCase P message)) videoKeywords"
    and pre: "before = [] \<or> \<not> is_word (last before)"
    and post: "after = [] \<or> \<not> is_word (hd after)"
    by blast+
  have "list_ex (\<lambda>pattern. test P True pattern (toLowerCase P message)) imagePatterns"
    unfolding low by (rule draw_word_matches [OF pre post])
  with nv show "detectRequestType P message = ImageRequest"
    by (simp add: detectRequestType_def Let_def)
qed

text \<open>The definitions that evaluate the classification of a given message.\<close>

lemma example_toLowerCase: "toLowerCase examplePlatform = map lower_unit"
  by (simp add: examplePlatform_def)

lemma example_canonicalize: "canonicalize examplePlatform = fold_unit"
  by (simp add: examplePlatform_def)

lemmas classification_defs = detectRequestType_def example_toLowerCase lower_unit_def js_def
  videoKeywords_def imagePatterns_def test_def lit_at_def same_unit_def example_canonicalize
  fold_unit_def word_boundary_def is_word_def is_space_def mentions_def imageNouns_def Let_def
  ru_sgenerir_def ru_narisuj_def ru_sozdaj_def ru_sdelaj_def ru_sgeneriruj_def
  ru_sgenerirujte_def ru_narisujte_def ru_sozdajte_def ru_sdelajte_def ru_kartinku_def
  ru_izobrazhenie_def ru_risunok_def ru_foto_def ru_art_def ru_video_def

theorem request_type_classification_witness:
  "toLowerCase examplePlatform (js ''Make  IMAGE'') = [] @ js ''make'' @ js ''  '' @ js ''image'' @ []
   \<and> detectRequestType examplePlatform (js ''Make  IMAGE'') = ImageRequest
   \<and> \<not> list_ex (js_includes (toLowerCase examplePlatform (js ''Make  IMAGE''))) videoKeywords
   \<and> (list_ex (mentions examplePlatform (toLowerCase examplePlatform (js ''Make  IMAGE''))) imageNouns
       \<or> mentions examplePlatform (toLowerCase examplePlatform (js ''Make  IMAGE'')) (js ''draw'')
       \<or> mentions examplePlatform (toLowerCase examplePlatform (js ''Make  IMAGE'')) ru_narisuj)
   \<and> mentions examplePlatform (toLowerCase examplePlatform (js ''Make  IMAGE'')) (js ''image'')
   \<and> toLowerCase examplePlatform (js ''Draw a cat'') = [] @ js ''draw'' @ js '' a cat''
   \<and> detectRequestType examplePlatform (js ''Draw a cat'') = ImageRequest
   \<and> list_ex (js_includes (toLowerCase examplePlatform (js ''make video draw art''))) videoKeywords
   \<and> detectRequestType examplePlatform (js ''make video draw art'') = VideoRequest
   \<and> \<not> list_ex (\<lambda>pattern. test examplePlatform True pattern
                   (toLowerCase examplePlatform (js ''Make an image''))) imagePatterns
   \<and> detectRequestType examplePlatform (js ''Make an image'') = TextRequest"
proof -
  let ?P = examplePlatform
  note video_iff = request_type_classification [THEN conjunct1]
  note text_iff = request_type_classification [THEN conjunct2, THEN conjunct2, THEN conjunct1]
  note image_words = request_type_classification
    [THEN conjunct2, THEN conjunct2, THEN conjunct2, THEN conjunct1, THEN mp]
  note english_phrase = request_type_classification
    [THEN conjunct2, THEN conjunct2, THEN conjunct2, THEN conjunct2, THEN conjunct1, THEN mp]
  note draw_word = request_type_classification
    [THEN conjunct2, THEN conjunct2, THEN conjunct2, THEN conjunct2, THEN conjunct2, THEN mp]
  have nv1: "\<not> list_ex (js_includes (toLowerCase ?P (js ''Make  IMAGE''))) videoKeywords"
    by (simp add: classification_defs)
  have low1: "toLowerCase ?P (js ''Make  IMAGE'') = [] @ js ''make'' @ js ''  '' @ js ''image'' @ []"
    by (simp add: example_toLowerCase lower_unit_def js_def)
  have sp: "js ''  '' \<noteq> []" "list_all is_space (js ''  '')"
    by (simp_all add: js_def is_space_def)
  have b: "detectRequestType ?P (js ''Make  IMAGE'') = ImageRequest"
    by (rule english_phrase [of ?P _ "[]" "js ''make''" "js ''  ''" "js ''image''" "[]"])
      (intro conjI nv1 low1 sp, simp_all)
  have m: "list_ex (mentions ?P (toLowerCase ?P (js ''Make  IMAGE''))) imageNouns
       \<or> mentions ?P (toLowerCase ?P (js ''Make  IMAGE'')) (js ''draw'')
       \<or> mentions ?P (toLowerCase ?P (js ''Make  IMAGE'')) ru_narisuj"
    using image_words [OF b] by (rule conjunct2)
  have d: "mentions ?P (toLowerCase ?P (js ''Make  IMAGE'')) (js ''image'')"
    by (simp add: classification_defs)
  have nv2: "\<not> list_ex (js_includes (toLowerCase ?P (js ''Draw a cat''))) videoKeywords"
    by (simp add: classification_defs)
  have low2: "toLowerCase ?P (js ''Draw a cat'') = [] @ js ''draw'' @ js '' a cat''"
    by (simp add: example_toLowerCase lower_unit_def js_def)
  have ed: "\<not> is_word (hd (js '' a cat''))"
    by (simp add: js_def is_word_def)
  have c: "detectRequestType ?P (js ''Draw a cat'') = ImageRequest"
    by (rule draw_word [of ?P _ "[]" "js '' a cat''"]) (intro conjI nv2 low2, simp_all add: ed)
  have v: "list_ex (js_includes (toLowerCase ?P (js ''make video draw art''))) videoKeywords"
    by (simp add: classification_defs)
  have e: "detectRequestType ?P (js ''make video draw art'') = VideoRequest"
    using v by (simp only: video_iff)
  have nv3: "\<not> list_ex (js_includes (toLowerCase ?P (js ''Make an image''))) videoKeywords"
    by (simp add: classification_defs)
  have np: "\<not> list_ex (\<lambda>pattern. test ?P True pattern (toLowerCase ?P (js ''Make an image'')))
      imagePatterns"
    by (simp add: classification_defs)
  have f: "detectRequestType ?P (js ''Make an image'') = TextRequest"
    using nv3 np by (simp only: text_iff simp_thms)
  show ?thesis
    by (intro conjI low1 b nv1 m d low2 c v e np f)
qed

text \<open>
  C9 as stated fails: \<^verbatim>\<open>draw a cat\<close> is classified as an image request and contains
  none of the image nouns.
\<close>

theorem draw_without_noun_counterexample:
  "detectRequestType examplePlatform (js ''draw a cat'') = ImageRequest
   \<and> \<not> list_ex (mentions examplePlatform (toLowerCase examplePlatform (js ''draw a cat'')))
         imageNouns"
  by (simp add: classification_defs)

text \<open>
  The class \<^verbatim>\<open>\w\<close> of these patterns holds no Cyrillic letter, so \<^verbatim>\<open>\b\<close> finds a
  boundary only next to an ASCII letter, a digit or an underscore. Each of the four
  patterns starts with \<^verbatim>\<open>\b\<close>: a message that lowers to a text without such a
  character is not classified as an image. The comment on the second pattern says that
  the word \<^verbatim>\<open>narisuj\<close> (in Cyrillic) on its own always asks for an image; the phrases
  \<^verbatim>\<open>narisuj kota\<close> and \<^verbatim>\<open>narisuj kartinku\<close> are classified as text.
\<close>

lemma no_word_character_no_boundary:
  assumes "\<forall>c \<in> set s. \<not> is_word c"
  shows "\<not> word_boundary s i"
proof -
  have "\<not> is_word (s ! j)" if "j < length s" for j
    using assms that by simp
  then show ?thesis
    by (auto simp add: word_boundary_def)
qed

lemma no_word_character_not_image:
  assumes "\<forall>c \<in> set (toLowerCase P message). \<not> is_word c"
  shows "detectRequestType P message \<noteq> ImageRequest"
proof -
  have "\<not> test P True pattern (toLowerCase P message)" if "pattern \<in> set imagePatterns"
    for pattern
  proof -
    from that obtain r where r: "pattern = Seq WordB r"
      by (auto simp add: imagePatterns_def)
    have "match_ends P True (toLowerCase P message) WordB i = []" for i
      using no_word_character_no_boundary [OF assms] by simp
    then show ?thesis
      unfolding r test_match by (simp add: match_ends_Seq del: match_ends.simps)
  qed
  then have "\<not> list_ex (\<lambda>pattern. test P True pattern (toLowerCase P message)) imagePatterns"
    by (simp add: list_ex_iff)
  then show ?thesis
    by (simp add: detectRequestType_def Let_def)
qed

lemma cyrillic_phrase_is_text:
  "detectRequestType examplePlatform (ru_narisuj @ js '' '' @ ru_kota) = TextRequest
   \<and> detectRequestType examplePlatform (ru_narisuj @ js '' '' @ ru_kartinku) = TextRequest"
  by (simp add: classification_defs ru_kota_def)

end
